theory Spec2Isabelle
  imports Main
begin

unbundle bit_operations_syntax

section \<open>The LS-8 simulator of cpu.py\<close>

text \<open>
  A shallow embedding of \<^verbatim>\<open>src/cpu.py\<close>. Python integers are unbounded, so every
  value is an \<open>int\<close>. The memory and the register file are Python lists: an index
  below zero counts from the end and an index out of range raises IndexError. An
  exception is a value: a function of the source that may raise returns a sum, with
  the exception and the text printed so far on the left.
\<close>

subsection \<open>Output, exceptions, results\<close>

text \<open>
  What \<^verbatim>\<open>print\<close> writes: literal text, an integer in decimal
  (\<^verbatim>\<open>print(n)\<close>, \<^verbatim>\<open>{n}\<close>), an integer formatted by \<^verbatim>\<open>%02X\<close>, the text
  \<^verbatim>\<open>None\<close>, and the end of a line.
\<close>

datatype piece = Lit string | Dec int | Hex2 int | NoneText | NL

text \<open>
  The exceptions the source can raise. \<open>SystemExit c\<close> is \<^verbatim>\<open>sys.exit(c)\<close>, with
  \<open>None\<close> for \<^verbatim>\<open>sys.exit()\<close>; \<open>KeyError k\<close> is a miss of key \<open>k\<close> in
  \<^verbatim>\<open>binary_op\<close>, \<open>KeyErrorName n\<close> a miss in the branch table; \<open>Exception m\<close> is
  \<^verbatim>\<open>raise Exception(m)\<close>; \<open>ValueError\<close> is what \<^verbatim>\<open>int(value, 2)\<close> raises. The
  last five are what \<^verbatim>\<open>open\<close> and the reading of a file raise: a name with no file, a
  directory, a file that may not be read, bytes that are no text, and \<open>OSError\<close> for
  every other failure of the operating system.
\<close>

datatype error =
    IndexError
  | KeyError int
  | KeyErrorName string
  | ValueError
  | Exception string
  | SystemExit "int option"
  | FileNotFoundError
  | IsADirectoryError
  | PermissionError
  | UnicodeDecodeError
  | OSError

type_synonym 'a res = "(error \<times> piece list) + 'a"

definition bnd :: "'a res \<Rightarrow> ('a \<Rightarrow> 'b res) \<Rightarrow> 'b res" where
  "bnd m f = (case m of Inl e \<Rightarrow> Inl e | Inr v \<Rightarrow> f v)"

subsection \<open>Python lists\<close>

text \<open>
  The position a Python list index stands for: \<open>i\<close> itself from 0 up to the length,
  the length plus \<open>i\<close> for a negative \<open>i\<close> down to minus the length, and none
  (IndexError) otherwise.
\<close>

definition py_index :: "'a list \<Rightarrow> int \<Rightarrow> nat option" where
  "py_index xs i =
     (if 0 \<le> i \<and> i < int (length xs) then Some (nat i)
      else if i < 0 \<and> - int (length xs) \<le> i then Some (nat (int (length xs) + i))
      else None)"

subsection \<open>The machine\<close>

text \<open>
  The fields of \<^verbatim>\<open>CPU\<close>, and \<open>out\<close>, the text printed so far. The constructor
  leaves \<^verbatim>\<open>operand_a\<close> and \<^verbatim>\<open>operand_b\<close> at \<^verbatim>\<open>None\<close>; \<^verbatim>\<open>run\<close> overwrites both
  with memory cells before it calls any handler, so a handler only ever sees
  integers there and the two fields are integers here.
\<close>

record cpu =
  ram :: "int list"
  reg :: "int list"
  operand_a :: int
  operand_b :: int
  PC :: int
  MAR :: "int option"
  MDR :: "int option"
  FL :: int
  out :: "piece list"

definition SP :: int where
  "SP = 7"

definition binary_op :: "int \<Rightarrow> string option" where
  "binary_op = map_of
     [(1, ''HLT''), (130, ''LDI''), (71, ''PRN''), (69, ''PUSH''), (70, ''POP''),
      (80, ''CALL''), (17, ''RET''), (84, ''JMP''), (85, ''JEQ''), (86, ''JNE'')]"

definition math_op :: "string \<Rightarrow> int option" where
  "math_op = map_of [(''ADD'', 160), (''SUB'', 161), (''MUL'', 162), (''CMP'', 167)]"

text \<open>\<^verbatim>\<open>raise\<close>: the exception, with what the process has printed.\<close>

definition raise :: "error \<Rightarrow> cpu \<Rightarrow> 'a res" where
  "raise e s = Inl (e, out s)"

text \<open>\<^verbatim>\<open>print(x)\<close> and \<^verbatim>\<open>print(x, end='')\<close>.\<close>

definition print :: "piece \<Rightarrow> cpu \<Rightarrow> cpu" where
  "print p s = s\<lparr>out := out s @ [p, NL]\<rparr>"

definition print_noend :: "piece list \<Rightarrow> cpu \<Rightarrow> cpu" where
  "print_noend ps s = s\<lparr>out := out s @ ps\<rparr>"

text \<open>\<^verbatim>\<open>self.reg[i]\<close>, \<^verbatim>\<open>self.reg[i] = v\<close>, \<^verbatim>\<open>self.ram[i]\<close>, \<^verbatim>\<open>self.ram[i] = v\<close>.\<close>

definition reg_get :: "cpu \<Rightarrow> int \<Rightarrow> int res" where
  "reg_get s i = (case py_index (reg s) i of None \<Rightarrow> raise IndexError s | Some j \<Rightarrow> Inr (reg s ! j))"

definition reg_set :: "cpu \<Rightarrow> int \<Rightarrow> int \<Rightarrow> cpu res" where
  "reg_set s i v =
     (case py_index (reg s) i of None \<Rightarrow> raise IndexError s
      | Some j \<Rightarrow> Inr (s\<lparr>reg := (reg s)[j := v]\<rparr>))"

definition ram_get :: "cpu \<Rightarrow> int \<Rightarrow> int res" where
  "ram_get s i = (case py_index (ram s) i of None \<Rightarrow> raise IndexError s | Some j \<Rightarrow> Inr (ram s ! j))"

definition ram_set :: "cpu \<Rightarrow> int \<Rightarrow> int \<Rightarrow> cpu res" where
  "ram_set s i v =
     (case py_index (ram s) i of None \<Rightarrow> raise IndexError s
      | Some j \<Rightarrow> Inr (s\<lparr>ram := (ram s)[j := v]\<rparr>))"

subsection \<open>The handlers of the branch table\<close>

definition call :: "cpu \<Rightarrow> cpu res" where
  "call s =
     bnd (reg_get s SP) (\<lambda>sp.
     bnd (reg_set s SP (sp - 1)) (\<lambda>s1.
     let instruction_address = PC s1 + 2 in
     bnd (reg_get s1 SP) (\<lambda>sp1.
     bnd (ram_set s1 sp1 instruction_address) (\<lambda>s2.
     let register = operand_a s2 in
     bnd (reg_get s2 register) (\<lambda>v.
     Inr (s2\<lparr>PC := v\<rparr>))))))"

definition ret :: "cpu \<Rightarrow> cpu res" where
  "ret s =
     bnd (reg_get s SP) (\<lambda>sp.
     bnd (ram_get s sp) (\<lambda>v.
     let s1 = s\<lparr>PC := v\<rparr> in
     bnd (reg_get s1 SP) (\<lambda>sp1.
     reg_set s1 SP (sp1 + 1))))"

definition jmp :: "cpu \<Rightarrow> cpu res" where
  "jmp s =
     bnd (reg_get s (operand_a s)) (\<lambda>address.
     let s1 = print (Lit ''JUMPING'') s in
     Inr (s1\<lparr>PC := address\<rparr>))"

definition jeq :: "cpu \<Rightarrow> cpu res" where
  "jeq s =
     bnd (reg_get s (operand_a s)) (\<lambda>address.
     if FL s AND 1 = 1 then Inr (s\<lparr>PC := address\<rparr>)
     else Inr (s\<lparr>PC := PC s + 2\<rparr>))"

definition jne :: "cpu \<Rightarrow> cpu res" where
  "jne s =
     bnd (reg_get s (operand_a s)) (\<lambda>address.
     if FL s AND 1 = 0 then Inr (s\<lparr>PC := address\<rparr>)
     else Inr (s\<lparr>PC := PC s + 2\<rparr>))"

definition halt :: "cpu \<Rightarrow> cpu res" where
  "halt s = raise (SystemExit None) s"

definition ldi :: "cpu \<Rightarrow> cpu res" where
  "ldi s = reg_set s (operand_a s) (operand_b s)"

definition prn :: "cpu \<Rightarrow> cpu res" where
  "prn s = bnd (reg_get s (operand_a s)) (\<lambda>v. Inr (print (Dec v) s))"

definition push :: "cpu \<Rightarrow> cpu res" where
  "push s =
     bnd (reg_get s SP) (\<lambda>sp.
     bnd (reg_set s SP (sp - 1)) (\<lambda>s1.
     bnd (reg_get s1 (operand_a s1)) (\<lambda>v.
     bnd (reg_get s1 SP) (\<lambda>sp1.
     ram_set s1 sp1 v))))"

definition pop :: "cpu \<Rightarrow> cpu res" where
  "pop s =
     bnd (reg_get s SP) (\<lambda>sp.
     bnd (ram_get s sp) (\<lambda>v.
     let register = operand_a s in
     bnd (reg_set s register v) (\<lambda>s1.
     bnd (reg_get s1 SP) (\<lambda>sp1.
     reg_set s1 SP (sp1 + 1)))))"

definition instructions :: "string \<Rightarrow> (cpu \<Rightarrow> cpu res) option" where
  "instructions = map_of
     [(''HLT'', halt), (''LDI'', ldi), (''PRN'', prn), (''PUSH'', push), (''POP'', pop),
      (''CALL'', call), (''RET'', ret), (''JMP'', jmp), (''JEQ'', jeq), (''JNE'', jne)]"

subsection \<open>Memory access\<close>

definition ram_read :: "cpu \<Rightarrow> int \<Rightarrow> (int \<times> cpu) res" where
  "ram_read s address =
     (let s1 = s\<lparr>MAR := Some address\<rparr> in
      bnd (ram_get s1 address) (\<lambda>v.
      Inr (v, s1\<lparr>MDR := Some v\<rparr>)))"

definition ram_write :: "cpu \<Rightarrow> int \<Rightarrow> int \<Rightarrow> cpu res" where
  "ram_write s v address =
     (let s1 = s\<lparr>MAR := Some address, MDR := Some v\<rparr> in ram_set s1 address v)"

subsection \<open>The ALU\<close>

text \<open>
  \<^verbatim>\<open>self.reg[reg_a] += self.reg[reg_b]\<close> reads \<^verbatim>\<open>reg[reg_a]\<close>, then
  \<^verbatim>\<open>reg[reg_b]\<close>, then stores the result at \<^verbatim>\<open>reg_a\<close>.
\<close>

definition reg_inplace :: "(int \<Rightarrow> int \<Rightarrow> int) \<Rightarrow> int \<Rightarrow> int \<Rightarrow> cpu \<Rightarrow> cpu res" where
  "reg_inplace f reg_a reg_b s =
     bnd (reg_get s reg_a) (\<lambda>x.
     bnd (reg_get s reg_b) (\<lambda>y.
     reg_set s reg_a (f x y)))"

definition ALU :: "int \<Rightarrow> int \<Rightarrow> int \<Rightarrow> cpu \<Rightarrow> cpu res" where
  "ALU op reg_a reg_b s =
     (if Some op = math_op ''ADD'' then
        reg_inplace (+) reg_a reg_b (print (Lit ''ADDING'') s)
      else if Some op = math_op ''SUB'' then
        reg_inplace (-) reg_a reg_b (print (Lit ''SUBTRACTING'') s)
      else if Some op = math_op ''MUL'' then
        reg_inplace (*) reg_a reg_b (print (Lit ''MULTIPYING'') s)
      else if Some op = math_op ''CMP'' then
        bnd (reg_get s (operand_a s)) (\<lambda>valueA.
        bnd (reg_get s (operand_b s)) (\<lambda>valueB.
        let s1 = (if valueA = valueB then s\<lparr>FL := 1\<rparr> else s);
            s2 = (if valueA < valueB then s1\<lparr>FL := 4\<rparr> else s1);
            s3 = (if valueA > valueB then s2\<lparr>FL := 2\<rparr> else s2)
        in Inr s3))
      else raise (Exception ''Unsupported ALU operation'') s)"

subsection \<open>The engine\<close>

text \<open>The loop of \<^verbatim>\<open>trace\<close> over \<^verbatim>\<open>range(8)\<close>.\<close>

fun trace_regs :: "int list \<Rightarrow> cpu \<Rightarrow> cpu res" where
  "trace_regs [] s = Inr s"
| "trace_regs (i # rest) s =
     bnd (reg_get s i) (\<lambda>r. trace_regs rest (print_noend [Lit '' '', Hex2 r] s))"

definition trace :: "cpu \<Rightarrow> cpu res" where
  "trace s =
     bnd (ram_read s (PC s)) (\<lambda>(b0, s1).
     bnd (ram_read s1 (PC s1 + 1)) (\<lambda>(b1, s2).
     bnd (ram_read s2 (PC s2 + 2)) (\<lambda>(b2, s3).
     trace_regs [0, 1, 2, 3, 4, 5, 6, 7]
       (print_noend
          [Lit ''TRACE: '', Hex2 (PC s), Lit '' | '', Hex2 b0, Lit '' '', Hex2 b1,
           Lit '' '', Hex2 b2, Lit '' |''] s3))))"

definition sets_PC :: "int \<Rightarrow> bool" where
  "sets_PC ireg = (drop_bit 7 (push_bit 3 ireg mod 255) = 1)"

definition move_PC :: "int \<Rightarrow> cpu \<Rightarrow> cpu" where
  "move_PC ireg s =
     (if \<not> sets_PC ireg then s\<lparr>PC := PC s + (drop_bit 6 ireg + 1)\<rparr> else s)"

definition alu_class :: "int \<Rightarrow> int" where
  "alu_class ireg = drop_bit 7 (push_bit 2 ireg mod 255)"

text \<open>The fetch of one pass of the loop of \<^verbatim>\<open>run\<close>: the opcode and the machine with both operands latched.\<close>

definition fetch :: "cpu \<Rightarrow> (int \<times> cpu) res" where
  "fetch s =
     bnd (ram_read s (PC s)) (\<lambda>(ireg, s1).
     bnd (ram_read s1 (PC s1 + 1)) (\<lambda>(a, s2).
     let s3 = s2\<lparr>operand_a := a\<rparr> in
     bnd (ram_read s3 (PC s3 + 2)) (\<lambda>(b, s4).
     Inr (ireg, s4\<lparr>operand_b := b\<rparr>))))"

text \<open>The handler the loop picks for the opcode, run on the machine after the fetch.\<close>

definition execute :: "int \<Rightarrow> cpu \<Rightarrow> cpu res" where
  "execute ireg s =
     (if alu_class ireg = 1 then ALU ireg (operand_a s) (operand_b s) s
      else if alu_class ireg = 0 then
        (case binary_op ireg of
           None \<Rightarrow> raise (KeyError ireg) s
         | Some name \<Rightarrow>
             (case instructions name of
                None \<Rightarrow> raise (KeyErrorName name) s
              | Some handler \<Rightarrow> handler s))
      else
        (let s1 = print_noend
                    [Lit ''Space dog did not understand that command: '', Dec ireg, NL] s
         in bnd (trace s1) (\<lambda>s2. raise (SystemExit (Some 1)) (print NoneText s2))))"

text \<open>One pass of the loop of \<^verbatim>\<open>run\<close>.\<close>

definition cycle :: "cpu \<Rightarrow> cpu res" where
  "cycle s =
     bnd (fetch s) (\<lambda>(ireg, s1).
     bnd (execute ireg s1) (\<lambda>s2.
     Inr (move_PC ireg s2)))"

text \<open>
  \<^verbatim>\<open>run\<close> is \<^verbatim>\<open>while True\<close>: it never returns, it ends by an exception (that of
  \<^verbatim>\<open>HLT\<close> included) or it runs forever, which is \<open>None\<close> here.
\<close>

partial_function (option) run :: "cpu \<Rightarrow> (error \<times> piece list) option" where
  "run s = (case cycle s of Inl e \<Rightarrow> Some e | Inr s' \<Rightarrow> run s')"

subsection \<open>The loader\<close>

text \<open>
  \<^verbatim>\<open>load\<close> reads \<^verbatim>\<open>sys.argv\<close> and a file. Here \<open>argv\<close> is the argument list and
  \<open>files\<close> says what \<^verbatim>\<open>open(filename)\<close> and the loop over the file do for each name:
  \<open>OpenRaises e\<close> when \<^verbatim>\<open>open\<close> raises \<open>e\<close> (FileNotFoundError for a name with no file,
  IsADirectoryError, PermissionError, ...), and \<open>Opened program ending\<close> when \<^verbatim>\<open>open\<close>
  returns and the loop is given the lines \<open>program\<close>, after which the reading ends: at
  the end of the file (\<open>None\<close>) or by an exception (\<open>Some e\<close>, such as UnicodeDecodeError).
  Python's \<^verbatim>\<open>str.strip\<close> and \<^verbatim>\<open>int(value, 2)\<close> are library functions, taken as the
  parameters \<open>strip\<close> and \<open>int2\<close> (\<open>None\<close> where \<^verbatim>\<open>int\<close> raises ValueError).
  \<^verbatim>\<open>split("#")[0]\<close> is the text before the first \<^verbatim>\<open>#\<close>.
\<close>

datatype opened = OpenRaises error | Opened "string list" "error option"

text \<open>The loop over the lines of the file, from the given address.\<close>

fun load_lines ::
  "(string \<Rightarrow> string) \<Rightarrow> (string \<Rightarrow> int option) \<Rightarrow> string list \<Rightarrow> error option \<Rightarrow>
   int \<Rightarrow> cpu \<Rightarrow> cpu res"
where
  "load_lines strip int2 [] ending address s =
     (case ending of None \<Rightarrow> Inr s | Some e \<Rightarrow> raise e s)"
| "load_lines strip int2 (instruction # program) ending address s =
     (let comment_split0 = takeWhile (\<lambda>c. c \<noteq> CHR ''#'') (strip instruction);
          value = strip comment_split0
      in if value = [] then load_lines strip int2 program ending address s
         else (case int2 value of
                 None \<Rightarrow> raise ValueError s
               | Some num \<Rightarrow>
                   bnd (ram_set s address num) (\<lambda>s1.
                   load_lines strip int2 program ending (address + 1) s1)))"

text \<open>
  \<^verbatim>\<open>except FileNotFoundError\<close> around the body of the \<^verbatim>\<open>try\<close>: that exception alone is
  caught, and the handler prints and exits with status 2; every other one goes on.
\<close>

definition except_FileNotFoundError :: "cpu res \<Rightarrow> cpu res" where
  "except_FileNotFoundError body =
     (case body of
        Inl (e, printed) \<Rightarrow>
          (if e = FileNotFoundError
           then Inl (SystemExit (Some 2), printed @ [Lit ''File not found'', NL])
           else Inl (e, printed))
      | Inr s \<Rightarrow> Inr s)"

definition load ::
  "(string \<Rightarrow> string) \<Rightarrow> (string \<Rightarrow> int option) \<Rightarrow> string list \<Rightarrow>
   (string \<Rightarrow> opened) \<Rightarrow> cpu \<Rightarrow> cpu res"
where
  "load strip int2 argv files s =
     (if length argv \<noteq> 2 then
        raise (SystemExit (Some 1)) (print (Lit ''ERROR: Must have file name'') s)
      else
        (let filename = argv ! 1 in
         except_FileNotFoundError
           (case files filename of
              OpenRaises e \<Rightarrow> raise e s
            | Opened program ending \<Rightarrow> load_lines strip int2 program ending 0 s)))"

subsection \<open>Notions the properties are stated with\<close>

text \<open>A machine whose lists have the sizes the constructor gives them.\<close>

definition wf_cpu :: "cpu \<Rightarrow> bool" where
  "wf_cpu s = (length (ram s) = 256 \<and> length (reg s) = 8)"

text \<open>
  The machine \<^verbatim>\<open>__init__\<close> builds, with \<open>a\<close> and \<open>b\<close> in the operand fields (what
  a fetch latches).
\<close>

definition init_cpu :: "int \<Rightarrow> int \<Rightarrow> cpu" where
  "init_cpu a b =
     \<lparr>ram = replicate 256 0, reg = (replicate 8 0)[7 := 244], operand_a = a,
      operand_b = b, PC = 0, MAR = None, MDR = None, FL = 0, out = []\<rparr>"

text \<open>The lines of a program image the loader keeps: comment and blanks removed, not empty.\<close>

definition image_values :: "(string \<Rightarrow> string) \<Rightarrow> string list \<Rightarrow> string list" where
  "image_values strip program =
     filter (\<lambda>v. v \<noteq> [])
       (map (\<lambda>l. strip (takeWhile (\<lambda>c. c \<noteq> CHR ''#'') (strip l))) program)"

text \<open>
  Two functions to run the loader on examples in place of the library's, each narrower
  than the library function. \<open>strip_blanks\<close> removes the space characters at both ends:
  it is \<^verbatim>\<open>str.strip\<close> on a text whose only whitespace is the space character.
  \<open>binary_numeral\<close> reads a text of one or more of the digits 0 and 1 and gives
  \<open>None\<close> on every other text: it is \<^verbatim>\<open>int(value, 2)\<close> on a text made of decimal digits
  only. Python's \<^verbatim>\<open>int\<close> also reads a sign, the prefix \<^verbatim>\<open>0b\<close> and underscores between
  digits, which \<open>binary_numeral\<close> refuses; the examples apply it to texts of decimal
  digits only.
\<close>

definition strip_blanks :: "string \<Rightarrow> string" where
  "strip_blanks l =
     rev (dropWhile (\<lambda>c. c = CHR '' '') (rev (dropWhile (\<lambda>c. c = CHR '' '') l)))"

fun bits_value :: "int \<Rightarrow> string \<Rightarrow> int option" where
  "bits_value acc [] = Some acc"
| "bits_value acc (c # cs) =
     (if c = CHR ''0'' then bits_value (2 * acc) cs
      else if c = CHR ''1'' then bits_value (2 * acc + 1) cs
      else None)"

definition binary_numeral :: "string \<Rightarrow> int option" where
  "binary_numeral v = (if v = [] then None else bits_value 0 v)"

section \<open>Basic facts\<close>

lemma bnd_Inr: "bnd (Inr v) f = f v"
  by (simp add: bnd_def)

lemma bnd_Inl: "bnd (Inl e) f = Inl e"
  by (simp add: bnd_def)

lemma py_index_Some:
  "- int (length xs) \<le> i \<Longrightarrow> i < int (length xs) \<Longrightarrow>
   py_index xs i = Some (nat (if i < 0 then int (length xs) + i else i))"
  by (simp add: py_index_def)

lemma py_index_None:
  "i < - int (length xs) \<or> int (length xs) \<le> i \<Longrightarrow> py_index xs i = None"
  by (auto simp: py_index_def)

lemma py_index_less: "py_index xs i = Some j \<Longrightarrow> j < length xs"
  by (auto simp: py_index_def split: if_splits)

lemma py_index_update: "py_index (xs[j := v]) i = py_index xs i"
  by (simp add: py_index_def)

lemma py_index_SP: "length xs = 8 \<Longrightarrow> py_index xs SP = Some 7"
  by (simp add: py_index_def SP_def)

lemma and_1_eq_1: "(x AND 1 = 1) = bit (x::int) 0"
  by (simp add: and_one_eq bit_0 mod_2_eq_odd)

lemma and_1_eq_0: "(x AND 1 = 0) = (\<not> bit (x::int) 0)"
  by (simp add: and_one_eq bit_0 mod_2_eq_odd)

lemma math_op_simps:
  "math_op ''ADD'' = Some 160" "math_op ''SUB'' = Some 161"
  "math_op ''MUL'' = Some 162" "math_op ''CMP'' = Some 167"
  by (simp_all add: math_op_def)

lemma wf_init_cpu: "wf_cpu (init_cpu a b)"
  by (simp add: wf_cpu_def init_cpu_def)

lemma reg_init_cpu: "reg (init_cpu a b) = [0, 0, 0, 0, 0, 0, 0, 244]"
  by (simp add: init_cpu_def numeral_eq_Suc)

lemma sel_init_cpu:
  "operand_a (init_cpu a b) = a" "operand_b (init_cpu a b) = b" "PC (init_cpu a b) = 0"
  "FL (init_cpu a b) = 0" "out (init_cpu a b) = []" "ram (init_cpu a b) = replicate 256 0"
  by (simp_all add: init_cpu_def)

lemma reg_get_SP: "wf_cpu s \<Longrightarrow> reg_get s SP = Inr (reg s ! 7)"
  by (simp add: reg_get_def wf_cpu_def py_index_SP)

lemma reg_set_SP: "wf_cpu s \<Longrightarrow> reg_set s SP v = Inr (s\<lparr>reg := (reg s)[7 := v]\<rparr>)"
  by (simp add: reg_set_def wf_cpu_def py_index_SP)

lemma wf_reg_update: "wf_cpu s \<Longrightarrow> wf_cpu (s\<lparr>reg := (reg s)[j := v]\<rparr>)"
  by (simp add: wf_cpu_def)

section \<open>The compare operation\<close>

lemma ALU_CMP:
  "ALU 167 ra rb s =
     bnd (reg_get s (operand_a s)) (\<lambda>va.
     bnd (reg_get s (operand_b s)) (\<lambda>vb.
     Inr (s\<lparr>FL := (if va = vb then 1 else if va < vb then 4 else 2)\<rparr>)))"
  unfolding ALU_def math_op_simps
  by (auto simp: bnd_def Let_def split: sum.splits)

text \<open>
  C4. Whenever CMP reads its two registers, it returns the machine with the flags
  register replaced by one value: bit 0 alone (Equal) when the two values are equal, bit
  2 alone (Less-than) when the first is less, bit 1 alone (Greater-than) when the first is
  greater. The new value does not depend on the flags before, and nothing else changes.
\<close>

theorem CMP_sets_exactly_one_flag:
  assumes "reg_get s (operand_a s) = Inr va" and "reg_get s (operand_b s) = Inr vb"
  shows "ALU 167 ra rb s =
           Inr (s\<lparr>FL := (if va = vb then 2 ^ 0 else if va < vb then 2 ^ 2 else 2 ^ 1)\<rparr>)"
  using assms by (simp add: ALU_CMP bnd_Inr)

theorem CMP_sets_exactly_one_flag_witness:
  "reg_get ((init_cpu 0 7)\<lparr>FL := 255\<rparr>) (operand_a ((init_cpu 0 7)\<lparr>FL := 255\<rparr>)) = Inr 0 \<and>
   reg_get ((init_cpu 0 7)\<lparr>FL := 255\<rparr>) (operand_b ((init_cpu 0 7)\<lparr>FL := 255\<rparr>)) = Inr 244 \<and>
   ALU 167 3 3 ((init_cpu 0 7)\<lparr>FL := 255\<rparr>) = Inr ((init_cpu 0 7)\<lparr>FL := 4\<rparr>)"
proof -
  let ?c = "(init_cpu 0 7)\<lparr>FL := 255\<rparr>"
  have a: "reg_get ?c (operand_a ?c) = Inr 0"
    by (simp add: reg_get_def py_index_def reg_init_cpu sel_init_cpu)
  have b: "reg_get ?c (operand_b ?c) = Inr 244"
    by (simp add: reg_get_def py_index_def reg_init_cpu sel_init_cpu)
  show ?thesis
    using a b CMP_sets_exactly_one_flag [OF a b, of 3 3] by simp
qed

text \<open>
  C5. The result of CMP is a function of the machine alone: it reads the registers named
  by the latched operand fields, whatever register arguments the ALU is called with.
\<close>

theorem CMP_reads_latched_operands:
  "ALU 167 ra rb s = ALU 167 ra' rb' s \<and>
   ALU 167 ra rb s =
     bnd (reg_get s (operand_a s)) (\<lambda>va.
     bnd (reg_get s (operand_b s)) (\<lambda>vb.
     Inr (s\<lparr>FL := (if va = vb then 1 else if va < vb then 4 else 2)\<rparr>)))"
  by (simp add: ALU_CMP)

section \<open>Conditional jumps\<close>

text \<open>
  C6. Whenever the operand register can be read: JEQ loads PC with that register's value
  when bit 0 of the flags (Equal) is set and adds 2 to PC when it is clear; JNE loads PC
  with the register's value when the bit is clear and adds 2 to PC when it is set.
\<close>

theorem jeq_jne_PC:
  assumes "reg_get s (operand_a s) = Inr address"
  shows "jeq s = Inr (s\<lparr>PC := (if bit (FL s) 0 then address else PC s + 2)\<rparr>) \<and>
         jne s = Inr (s\<lparr>PC := (if \<not> bit (FL s) 0 then address else PC s + 2)\<rparr>)"
  using assms by (simp add: jeq_def jne_def bnd_Inr and_1_eq_1 and_1_eq_0)

theorem jeq_jne_PC_witness:
  "reg_get ((init_cpu 7 0)\<lparr>FL := 1, PC := 10\<rparr>) (operand_a ((init_cpu 7 0)\<lparr>FL := 1, PC := 10\<rparr>))
     = Inr 244 \<and>
   jeq ((init_cpu 7 0)\<lparr>FL := 1, PC := 10\<rparr>) = Inr ((init_cpu 7 0)\<lparr>FL := 1, PC := 244\<rparr>) \<and>
   jne ((init_cpu 7 0)\<lparr>FL := 1, PC := 10\<rparr>) = Inr ((init_cpu 7 0)\<lparr>FL := 1, PC := 12\<rparr>)"
proof -
  let ?c = "(init_cpu 7 0)\<lparr>FL := 1, PC := 10\<rparr>"
  have a: "reg_get ?c (operand_a ?c) = Inr 244"
    by (simp add: reg_get_def py_index_def reg_init_cpu sel_init_cpu)
  show ?thesis
    using a jeq_jne_PC [OF a] by simp
qed

section \<open>The stack\<close>

text \<open>What PUSH, POP, CALL and RET return when their list indices are in range.\<close>

lemma push_eq:
  assumes "wf_cpu s" and a: "py_index (reg s) (operand_a s) = Some j"
    and k: "py_index (ram s) (reg s ! 7 - 1) = Some k"
  shows "push s = Inr (s\<lparr>reg := (reg s)[7 := reg s ! 7 - 1],
                         ram := (ram s)[k := (reg s)[7 := reg s ! 7 - 1] ! j]\<rparr>)"
proof -
  let ?s1 = "s\<lparr>reg := (reg s)[7 := reg s ! 7 - 1]\<rparr>"
  have w1: "wf_cpu ?s1" using \<open>wf_cpu s\<close> by (rule wf_reg_update)
  have g: "reg_get ?s1 (operand_a s) = Inr ((reg s)[7 := reg s ! 7 - 1] ! j)"
    using a by (simp add: reg_get_def py_index_update)
  have sp1: "reg_get ?s1 SP = Inr (reg s ! 7 - 1)"
    using w1 \<open>wf_cpu s\<close> by (simp add: reg_get_SP wf_cpu_def)
  have st: "ram_set ?s1 (reg s ! 7 - 1) v = Inr (?s1\<lparr>ram := (ram s)[k := v]\<rparr>)" for v
    using k by (simp add: ram_set_def)
  show ?thesis
    unfolding push_def
    by (simp add: reg_get_SP [OF \<open>wf_cpu s\<close>] reg_set_SP [OF \<open>wf_cpu s\<close>] bnd_Inr g sp1 st)
qed

lemma pop_eq:
  assumes "wf_cpu s" and a: "py_index (reg s) (operand_a s) = Some j"
    and k: "py_index (ram s) (reg s ! 7) = Some k"
  shows "pop s = Inr (s\<lparr>reg := ((reg s)[j := ram s ! k])[7 := (reg s)[j := ram s ! k] ! 7 + 1]\<rparr>)"
proof -
  let ?s1 = "s\<lparr>reg := (reg s)[j := ram s ! k]\<rparr>"
  have w1: "wf_cpu ?s1" using \<open>wf_cpu s\<close> by (rule wf_reg_update)
  have g: "ram_get s (reg s ! 7) = Inr (ram s ! k)"
    using k by (simp add: ram_get_def)
  have st: "reg_set s (operand_a s) v = Inr (s\<lparr>reg := (reg s)[j := v]\<rparr>)" for v
    using a by (simp add: reg_set_def)
  show ?thesis
    unfolding pop_def
    by (simp add: reg_get_SP [OF \<open>wf_cpu s\<close>] bnd_Inr g st Let_def reg_get_SP [OF w1] reg_set_SP [OF w1])
qed

lemma call_eq:
  assumes "wf_cpu s" and a: "py_index (reg s) (operand_a s) = Some j"
    and k: "py_index (ram s) (reg s ! 7 - 1) = Some k"
  shows "call s = Inr (s\<lparr>reg := (reg s)[7 := reg s ! 7 - 1],
                         ram := (ram s)[k := PC s + 2],
                         PC := (reg s)[7 := reg s ! 7 - 1] ! j\<rparr>)"
proof -
  let ?s1 = "s\<lparr>reg := (reg s)[7 := reg s ! 7 - 1]\<rparr>"
  let ?s2 = "?s1\<lparr>ram := (ram s)[k := PC s + 2]\<rparr>"
  have w1: "wf_cpu ?s1" using \<open>wf_cpu s\<close> by (rule wf_reg_update)
  have sp1: "reg_get ?s1 SP = Inr (reg s ! 7 - 1)"
    using w1 \<open>wf_cpu s\<close> by (simp add: reg_get_SP wf_cpu_def)
  have st: "ram_set ?s1 (reg s ! 7 - 1) v = Inr (?s1\<lparr>ram := (ram s)[k := v]\<rparr>)" for v
    using k by (simp add: ram_set_def)
  have g: "reg_get ?s2 (operand_a s) = Inr ((reg s)[7 := reg s ! 7 - 1] ! j)"
    using a by (simp add: reg_get_def py_index_update)
  show ?thesis
    unfolding call_def
    by (simp add: reg_get_SP [OF \<open>wf_cpu s\<close>] reg_set_SP [OF \<open>wf_cpu s\<close>] bnd_Inr sp1 st g Let_def)
qed

lemma ret_eq:
  assumes "wf_cpu s" and k: "py_index (ram s) (reg s ! 7) = Some k"
  shows "ret s = Inr (s\<lparr>PC := ram s ! k, reg := (reg s)[7 := reg s ! 7 + 1]\<rparr>)"
proof -
  let ?s1 = "s\<lparr>PC := ram s ! k\<rparr>"
  have w1: "wf_cpu ?s1" using \<open>wf_cpu s\<close> by (simp add: wf_cpu_def)
  have g: "ram_get s (reg s ! 7) = Inr (ram s ! k)"
    using k by (simp add: ram_get_def)
  show ?thesis
    unfolding ret_def
    by (simp add: reg_get_SP [OF \<open>wf_cpu s\<close>] bnd_Inr g Let_def reg_get_SP [OF w1] reg_set_SP [OF w1])
qed

text \<open>A stack write of PUSH or CALL with the decremented SP out of range raises IndexError.\<close>

lemma push_IndexError:
  assumes "wf_cpu s" and a: "py_index (reg s) (operand_a s) = Some j"
    and k: "py_index (ram s) (reg s ! 7 - 1) = None"
  shows "push s = Inl (IndexError, out s)"
proof -
  let ?s1 = "s\<lparr>reg := (reg s)[7 := reg s ! 7 - 1]\<rparr>"
  have w1: "wf_cpu ?s1" using \<open>wf_cpu s\<close> by (rule wf_reg_update)
  have g: "reg_get ?s1 (operand_a s) = Inr ((reg s)[7 := reg s ! 7 - 1] ! j)"
    using a by (simp add: reg_get_def py_index_update)
  have sp1: "reg_get ?s1 SP = Inr (reg s ! 7 - 1)"
    using w1 \<open>wf_cpu s\<close> by (simp add: reg_get_SP wf_cpu_def)
  have st: "ram_set ?s1 (reg s ! 7 - 1) v = Inl (IndexError, out s)" for v
    using k by (simp add: ram_set_def raise_def)
  show ?thesis
    unfolding push_def
    by (simp add: reg_get_SP [OF \<open>wf_cpu s\<close>] reg_set_SP [OF \<open>wf_cpu s\<close>] bnd_Inr g sp1 st)
qed

lemma index_in_range:
  assumes "length xs = n" and "- int n \<le> i" and "i < int n"
  obtains j where "py_index xs i = Some j" and "j < n"
  using assms py_index_Some [of xs i] py_index_less [of xs i] by auto

text \<open>
  C8. On a machine whose operand names a register (an index from -8 to 7) and whose SP,
  once decremented, indexes a memory cell (SP from -255 to 256), PUSH returns, the POP
  that follows with the same operand returns, and after it the register holds the value
  it held before the PUSH and SP holds its value before the PUSH: the whole register
  file is as it was.
\<close>

theorem push_pop_roundtrip:
  assumes "wf_cpu s" and "- 8 \<le> operand_a s" and "operand_a s < 8"
    and "- 255 \<le> reg s ! 7" and "reg s ! 7 \<le> 256"
  shows "\<exists>s1 s2. push s = Inr s1 \<and> operand_a s1 = operand_a s \<and> pop s1 = Inr s2 \<and>
           reg_get s2 (operand_a s) = reg_get s (operand_a s) \<and>
           reg_get s2 SP = reg_get s SP \<and> reg s2 = reg s"
proof -
  from \<open>wf_cpu s\<close> have len: "length (reg s) = 8" "length (ram s) = 256"
    by (simp_all add: wf_cpu_def)
  obtain j where j: "py_index (reg s) (operand_a s) = Some j" and "j < 8"
    using index_in_range [OF len(1), of "operand_a s"] assms(2,3) by auto
  obtain k where k: "py_index (ram s) (reg s ! 7 - 1) = Some k" and k256: "k < 256"
    using index_in_range [OF len(2), of "reg s ! 7 - 1"] assms(4,5) by auto
  let ?r1 = "(reg s)[7 := reg s ! 7 - 1]"
  let ?s1 = "s\<lparr>reg := ?r1, ram := (ram s)[k := ?r1 ! j]\<rparr>"
  have p: "push s = Inr ?s1"
    using \<open>wf_cpu s\<close> j k by (rule push_eq)
  have w1: "wf_cpu ?s1" using \<open>wf_cpu s\<close> by (simp add: wf_cpu_def)
  have j1: "py_index (reg ?s1) (operand_a ?s1) = Some j"
    using j by (simp add: py_index_update)
  have k1: "py_index (ram ?s1) (reg ?s1 ! 7) = Some k"
    using k len by (simp add: py_index_update)
  let ?s2 = "?s1\<lparr>reg := ((reg ?s1)[j := ram ?s1 ! k])[7 := (reg ?s1)[j := ram ?s1 ! k] ! 7 + 1]\<rparr>"
  have q: "pop ?s1 = Inr ?s2"
    using w1 j1 k1 by (rule pop_eq)
  have "ram ?s1 ! k = ?r1 ! j"
    using k256 len by simp
  then have "(reg ?s1)[j := ram ?s1 ! k] = ?r1"
    by simp
  then have r: "reg ?s2 = reg s"
    using len by simp
  have "reg_get ?s2 i = reg_get s i" if "py_index (reg s) i \<noteq> None" for i
    using that r by (auto simp: reg_get_def)
  then have "reg_get ?s2 (operand_a s) = reg_get s (operand_a s)"
    and "reg_get ?s2 SP = reg_get s SP"
    using j len by (simp_all add: py_index_SP)
  with p q r show ?thesis
    by (intro exI [of _ ?s1] exI [of _ ?s2]) simp
qed

theorem push_pop_roundtrip_witness:
  "wf_cpu ((init_cpu 0 0)\<lparr>reg := [42, 0, 0, 0, 0, 0, 0, 0]\<rparr>) \<and>
   (\<exists>s1 s2. push ((init_cpu 0 0)\<lparr>reg := [42, 0, 0, 0, 0, 0, 0, 0]\<rparr>) = Inr s1 \<and>
      pop s1 = Inr s2 \<and> reg_get s2 0 = Inr 42 \<and> reg_get s2 SP = Inr 0)"
proof -
  let ?c = "(init_cpu 0 0)\<lparr>reg := [42, 0, 0, 0, 0, 0, 0, 0]\<rparr>"
  have w: "wf_cpu ?c" by (simp add: wf_cpu_def sel_init_cpu)
  have h: "- 8 \<le> operand_a ?c" "operand_a ?c < 8" "- 255 \<le> reg ?c ! 7" "reg ?c ! 7 \<le> 256"
    by (simp_all add: sel_init_cpu)
  have g: "reg_get ?c (operand_a ?c) = Inr 42" "reg_get ?c SP = Inr 0"
    by (simp_all add: reg_get_def py_index_def sel_init_cpu SP_def)
  from push_pop_roundtrip [OF w h] g w show ?thesis
    by (auto simp: sel_init_cpu)
qed

lemma ram_get_SomeD:
  assumes "ram_get s i = Inr v"
  obtains k where "py_index (ram s) i = Some k" and "ram s ! k = v"
  using assms by (auto simp: ram_get_def raise_def split: option.splits)

text \<open>
  C7. On a machine whose operand names a register and whose SP, once decremented,
  indexes a memory cell, CALL returns: SP is one less, the memory cell at the new SP
  holds PC + 2, and PC is the value the operand register holds (read after the
  decrement). From every later machine whose SP is again that decremented value and
  whose cell there still holds PC + 2 (the stack is balanced), RET returns with PC equal
  to the PC of the CALL plus 2 and SP equal to its value before the CALL.
\<close>

theorem call_ret_roundtrip:
  assumes "wf_cpu s" and "- 8 \<le> operand_a s" and "operand_a s < 8"
    and "- 255 \<le> reg s ! 7" and "reg s ! 7 \<le> 256"
  shows "\<exists>s1. call s = Inr s1 \<and> wf_cpu s1 \<and>
           reg_get s1 SP = Inr (reg s ! 7 - 1) \<and>
           ram_get s1 (reg s ! 7 - 1) = Inr (PC s + 2) \<and>
           reg_get s1 (operand_a s) = Inr (PC s1) \<and>
           (\<forall>s2. wf_cpu s2 \<and> reg_get s2 SP = Inr (reg s ! 7 - 1) \<and>
                 ram_get s2 (reg s ! 7 - 1) = Inr (PC s + 2) \<longrightarrow>
              (\<exists>s3. ret s2 = Inr s3 \<and> PC s3 = PC s + 2 \<and> reg_get s3 SP = Inr (reg s ! 7)))"
proof -
  from \<open>wf_cpu s\<close> have len: "length (reg s) = 8" "length (ram s) = 256"
    by (simp_all add: wf_cpu_def)
  obtain j where j: "py_index (reg s) (operand_a s) = Some j" and "j < 8"
    using index_in_range [OF len(1), of "operand_a s"] assms(2,3) by auto
  obtain k where k: "py_index (ram s) (reg s ! 7 - 1) = Some k" and k256: "k < 256"
    using index_in_range [OF len(2), of "reg s ! 7 - 1"] assms(4,5) by auto
  let ?r1 = "(reg s)[7 := reg s ! 7 - 1]"
  let ?s1 = "s\<lparr>reg := ?r1, ram := (ram s)[k := PC s + 2], PC := ?r1 ! j\<rparr>"
  have c: "call s = Inr ?s1"
    using \<open>wf_cpu s\<close> j k by (rule call_eq)
  have w1: "wf_cpu ?s1" using \<open>wf_cpu s\<close> by (simp add: wf_cpu_def)
  have sp1: "reg_get ?s1 SP = Inr (reg s ! 7 - 1)"
    using w1 len by (simp add: reg_get_SP)
  have cell: "ram_get ?s1 (reg s ! 7 - 1) = Inr (PC s + 2)"
    using k k256 len by (simp add: ram_get_def py_index_update)
  have pc: "reg_get ?s1 (operand_a s) = Inr (PC ?s1)"
    using j by (simp add: reg_get_def py_index_update)
  have undo: "\<exists>s3. ret s2 = Inr s3 \<and> PC s3 = PC s + 2 \<and> reg_get s3 SP = Inr (reg s ! 7)"
    if w2: "wf_cpu s2" and sp2: "reg_get s2 SP = Inr (reg s ! 7 - 1)"
      and cell2: "ram_get s2 (reg s ! 7 - 1) = Inr (PC s + 2)" for s2
  proof -
    from w2 sp2 have r7: "reg s2 ! 7 = reg s ! 7 - 1"
      by (simp add: reg_get_SP)
    from cell2 obtain k' where k': "py_index (ram s2) (reg s ! 7 - 1) = Some k'"
      and v: "ram s2 ! k' = PC s + 2"
      by (rule ram_get_SomeD)
    let ?s3 = "s2\<lparr>PC := ram s2 ! k', reg := (reg s2)[7 := reg s2 ! 7 + 1]\<rparr>"
    have "ret s2 = Inr ?s3"
      using w2 k' r7 by (intro ret_eq) simp_all
    moreover have "wf_cpu ?s3" using w2 by (simp add: wf_cpu_def)
    then have "reg_get ?s3 SP = Inr (reg s ! 7)"
      using w2 r7 by (simp add: reg_get_SP wf_cpu_def)
    ultimately show ?thesis
      using v by (intro exI [of _ ?s3]) simp
  qed
  from c w1 sp1 cell pc undo show ?thesis
    by (intro exI [of _ ?s1]) blast
qed

theorem call_ret_roundtrip_witness:
  "wf_cpu ((init_cpu 0 0)\<lparr>reg := [100, 0, 0, 0, 0, 0, 0, 244], PC := 24\<rparr>) \<and>
   (\<exists>s1 s3. call ((init_cpu 0 0)\<lparr>reg := [100, 0, 0, 0, 0, 0, 0, 244], PC := 24\<rparr>) = Inr s1 \<and>
      PC s1 = 100 \<and> reg_get s1 SP = Inr 243 \<and> ram_get s1 243 = Inr 26 \<and>
      ret s1 = Inr s3 \<and> PC s3 = 26 \<and> reg_get s3 SP = Inr 244)"
proof -
  let ?c = "(init_cpu 0 0)\<lparr>reg := [100, 0, 0, 0, 0, 0, 0, 244], PC := 24\<rparr>"
  have w: "wf_cpu ?c" by (simp add: wf_cpu_def sel_init_cpu)
  have h: "- 8 \<le> operand_a ?c" "operand_a ?c < 8" "- 255 \<le> reg ?c ! 7" "reg ?c ! 7 \<le> 256"
    by (simp_all add: sel_init_cpu)
  have v: "reg ?c ! 7 - 1 = 243" "PC ?c + 2 = 26" "operand_a ?c = 0" "reg ?c ! 7 = 244"
    by (simp_all add: sel_init_cpu)
  obtain s1 where
    1: "call ?c = Inr s1" "wf_cpu s1" "reg_get s1 SP = Inr 243" "ram_get s1 243 = Inr 26"
      "reg_get s1 0 = Inr (PC s1)"
    and undo: "\<And>s2. wf_cpu s2 \<Longrightarrow> reg_get s2 SP = Inr 243 \<Longrightarrow> ram_get s2 243 = Inr 26 \<Longrightarrow>
                \<exists>s3. ret s2 = Inr s3 \<and> PC s3 = 26 \<and> reg_get s3 SP = Inr 244"
    using call_ret_roundtrip [OF w h] unfolding v by auto
  have "call ?c = Inr (?c\<lparr>reg := [100, 0, 0, 0, 0, 0, 0, 243],
                           ram := (ram ?c)[243 := 26], PC := 100\<rparr>)"
    using call_eq [OF w, of 0 243] by (simp add: py_index_def sel_init_cpu)
  with 1(1) have "PC s1 = 100" by auto
  with 1 undo [OF 1(2,3,4)] w show ?thesis by blast
qed

lemma call_IndexError:
  assumes "wf_cpu s" and k: "py_index (ram s) (reg s ! 7 - 1) = None"
  shows "call s = Inl (IndexError, out s)"
proof -
  let ?s1 = "s\<lparr>reg := (reg s)[7 := reg s ! 7 - 1]\<rparr>"
  have w1: "wf_cpu ?s1" using \<open>wf_cpu s\<close> by (rule wf_reg_update)
  have sp1: "reg_get ?s1 SP = Inr (reg s ! 7 - 1)"
    using w1 \<open>wf_cpu s\<close> by (simp add: reg_get_SP wf_cpu_def)
  have st: "ram_set ?s1 (reg s ! 7 - 1) v = Inl (IndexError, out s)" for v
    using k by (simp add: ram_set_def raise_def)
  show ?thesis
    unfolding call_def
    by (simp add: reg_get_SP [OF \<open>wf_cpu s\<close>] reg_set_SP [OF \<open>wf_cpu s\<close>] bnd_Inr bnd_Inl sp1 st
        Let_def)
qed

lemma pop_IndexError:
  assumes "wf_cpu s" and k: "py_index (ram s) (reg s ! 7) = None"
  shows "pop s = Inl (IndexError, out s)"
  using k unfolding pop_def
  by (simp add: reg_get_SP [OF \<open>wf_cpu s\<close>] bnd_Inr bnd_Inl ram_get_def raise_def)

lemma ret_IndexError:
  assumes "wf_cpu s" and k: "py_index (ram s) (reg s ! 7) = None"
  shows "ret s = Inl (IndexError, out s)"
  using k unfolding ret_def
  by (simp add: reg_get_SP [OF \<open>wf_cpu s\<close>] bnd_Inr bnd_Inl ram_get_def raise_def)

text \<open>
  C10, as the code has it. On a machine whose operand names a register: with SP at 0,
  PUSH and CALL return with SP at -1 and the pushed value (the operand register's value,
  or PC + 2) in memory cell 255. PUSH and CALL return for every SP from -255 to 256 and
  raise IndexError for every other SP, since they index memory with SP - 1; POP and RET
  return for every SP from -256 to 255 and raise IndexError for every other SP.
\<close>

theorem stack_index_ranges:
  assumes "wf_cpu s" and "- 8 \<le> operand_a s" and "operand_a s < 8"
  shows
    "(reg s ! 7 = 0 \<longrightarrow>
        (\<exists>s1 v. push s = Inr s1 \<and> reg_get s1 SP = Inr (- 1) \<and>
                 reg_get s1 (operand_a s) = Inr v \<and> ram s1 ! 255 = v) \<and>
        (\<exists>s1. call s = Inr s1 \<and> reg_get s1 SP = Inr (- 1) \<and> ram s1 ! 255 = PC s + 2)) \<and>
     (- 255 \<le> reg s ! 7 \<and> reg s ! 7 \<le> 256 \<longrightarrow>
        (\<exists>s1. push s = Inr s1) \<and> (\<exists>s1. call s = Inr s1)) \<and>
     (reg s ! 7 < - 255 \<or> 256 < reg s ! 7 \<longrightarrow>
        push s = Inl (IndexError, out s) \<and> call s = Inl (IndexError, out s)) \<and>
     (- 256 \<le> reg s ! 7 \<and> reg s ! 7 \<le> 255 \<longrightarrow>
        (\<exists>s1. pop s = Inr s1) \<and> (\<exists>s1. ret s = Inr s1)) \<and>
     (reg s ! 7 < - 256 \<or> 255 < reg s ! 7 \<longrightarrow>
        pop s = Inl (IndexError, out s) \<and> ret s = Inl (IndexError, out s))"
proof -
  from \<open>wf_cpu s\<close> have len: "length (reg s) = 8" "length (ram s) = 256"
    by (simp_all add: wf_cpu_def)
  obtain j where j: "py_index (reg s) (operand_a s) = Some j" and "j < 8"
    using index_in_range [OF len(1), of "operand_a s"] assms(2,3) by auto
  have zero: "(\<exists>s1 v. push s = Inr s1 \<and> reg_get s1 SP = Inr (- 1) \<and>
                 reg_get s1 (operand_a s) = Inr v \<and> ram s1 ! 255 = v) \<and>
        (\<exists>s1. call s = Inr s1 \<and> reg_get s1 SP = Inr (- 1) \<and> ram s1 ! 255 = PC s + 2)"
    if sp: "reg s ! 7 = 0"
  proof -
    have k: "py_index (ram s) (reg s ! 7 - 1) = Some 255"
      using sp len by (simp add: py_index_def)
    let ?r1 = "(reg s)[7 := reg s ! 7 - 1]"
    let ?s1 = "s\<lparr>reg := ?r1, ram := (ram s)[255 := ?r1 ! j]\<rparr>"
    let ?t1 = "s\<lparr>reg := ?r1, ram := (ram s)[255 := PC s + 2], PC := ?r1 ! j\<rparr>"
    have p: "push s = Inr ?s1" using \<open>wf_cpu s\<close> j k by (rule push_eq)
    have c: "call s = Inr ?t1" using \<open>wf_cpu s\<close> j k by (rule call_eq)
    have "wf_cpu ?s1" "wf_cpu ?t1" using \<open>wf_cpu s\<close> by (simp_all add: wf_cpu_def)
    then have "reg_get ?s1 SP = Inr (- 1)" "reg_get ?t1 SP = Inr (- 1)"
      using sp len by (simp_all add: reg_get_SP)
    moreover have "reg_get ?s1 (operand_a s) = Inr (?r1 ! j)"
      using j by (simp add: reg_get_def py_index_update)
    moreover have "ram ?s1 ! 255 = ?r1 ! j" "ram ?t1 ! 255 = PC s + 2"
      using len by simp_all
    ultimately show ?thesis
      using p c by blast
  qed
  have inside: "(\<exists>s1. push s = Inr s1) \<and> (\<exists>s1. call s = Inr s1)"
    if sp: "- 255 \<le> reg s ! 7 \<and> reg s ! 7 \<le> 256"
  proof -
    obtain k where k: "py_index (ram s) (reg s ! 7 - 1) = Some k"
      using py_index_Some [of "ram s" "reg s ! 7 - 1"] sp len by auto
    show ?thesis
      using push_eq [OF \<open>wf_cpu s\<close> j k] call_eq [OF \<open>wf_cpu s\<close> j k] by simp
  qed
  have outside: "push s = Inl (IndexError, out s) \<and> call s = Inl (IndexError, out s)"
    if "reg s ! 7 < - 255 \<or> 256 < reg s ! 7"
  proof -
    have k: "py_index (ram s) (reg s ! 7 - 1) = None"
      using that len by (intro py_index_None) auto
    show ?thesis
      using push_IndexError [OF \<open>wf_cpu s\<close> j k] call_IndexError [OF \<open>wf_cpu s\<close> k] by simp
  qed
  have inside': "(\<exists>s1. pop s = Inr s1) \<and> (\<exists>s1. ret s = Inr s1)"
    if sp: "- 256 \<le> reg s ! 7 \<and> reg s ! 7 \<le> 255"
  proof -
    obtain k where k: "py_index (ram s) (reg s ! 7) = Some k"
      using py_index_Some [of "ram s" "reg s ! 7"] sp len by auto
    show ?thesis
      using pop_eq [OF \<open>wf_cpu s\<close> j k] ret_eq [OF \<open>wf_cpu s\<close> k] by simp
  qed
  have outside': "pop s = Inl (IndexError, out s) \<and> ret s = Inl (IndexError, out s)"
    if "reg s ! 7 < - 256 \<or> 255 < reg s ! 7"
  proof -
    have k: "py_index (ram s) (reg s ! 7) = None"
      using that len by (intro py_index_None) auto
    show ?thesis
      using pop_IndexError [OF \<open>wf_cpu s\<close> k] ret_IndexError [OF \<open>wf_cpu s\<close> k] by simp
  qed
  from zero inside outside inside' outside' show ?thesis
    by blast
qed

theorem stack_index_ranges_witness:
  "wf_cpu ((init_cpu 0 0)\<lparr>reg := [42, 0, 0, 0, 0, 0, 0, 0], PC := 8\<rparr>) \<and>
   (\<exists>s1. push ((init_cpu 0 0)\<lparr>reg := [42, 0, 0, 0, 0, 0, 0, 0], PC := 8\<rparr>) = Inr s1 \<and>
      reg_get s1 SP = Inr (- 1) \<and> reg_get s1 0 = Inr 42 \<and> ram s1 ! 255 = 42) \<and>
   (\<exists>s1. call ((init_cpu 0 0)\<lparr>reg := [42, 0, 0, 0, 0, 0, 0, 0], PC := 8\<rparr>) = Inr s1 \<and>
      reg_get s1 SP = Inr (- 1) \<and> ram s1 ! 255 = 10) \<and>
   (\<exists>s1. pop ((init_cpu 0 0)\<lparr>reg := [42, 0, 0, 0, 0, 0, 0, 0], PC := 8\<rparr>) = Inr s1) \<and>
   (\<exists>s1. ret ((init_cpu 0 0)\<lparr>reg := [42, 0, 0, 0, 0, 0, 0, 0], PC := 8\<rparr>) = Inr s1) \<and>
   wf_cpu ((init_cpu 0 0)\<lparr>reg := [0, 0, 0, 0, 0, 0, 0, 300]\<rparr>) \<and>
   push ((init_cpu 0 0)\<lparr>reg := [0, 0, 0, 0, 0, 0, 0, 300]\<rparr>) = Inl (IndexError, []) \<and>
   ret ((init_cpu 0 0)\<lparr>reg := [0, 0, 0, 0, 0, 0, 0, 300]\<rparr>) = Inl (IndexError, [])"
proof -
  let ?c = "(init_cpu 0 0)\<lparr>reg := [42, 0, 0, 0, 0, 0, 0, 0], PC := 8\<rparr>"
  let ?d = "(init_cpu 0 0)\<lparr>reg := [0, 0, 0, 0, 0, 0, 0, 300]\<rparr>"
  have w: "wf_cpu ?c" "wf_cpu ?d" by (simp_all add: wf_cpu_def sel_init_cpu)
  have h: "- 8 \<le> operand_a ?c" "operand_a ?c < 8" "- 8 \<le> operand_a ?d" "operand_a ?d < 8"
    by (simp_all add: sel_init_cpu)
  have g: "reg_get s1 (operand_a ?c) = Inr v \<Longrightarrow> ram s1 ! 255 = v \<Longrightarrow>
           push ?c = Inr s1 \<Longrightarrow> v = 42" for s1 v
    using push_eq [OF w(1), of 0 255] by (auto simp: py_index_def sel_init_cpu)
  have 1: "reg ?c ! 7 = 0" "- 256 \<le> reg ?c ! 7 \<and> reg ?c ! 7 \<le> 255" "PC ?c + 2 = 10"
    "operand_a ?c = 0" by (simp_all add: sel_init_cpu)
  have 2: "reg ?d ! 7 < - 256 \<or> 255 < reg ?d ! 7" "reg ?d ! 7 < - 255 \<or> 256 < reg ?d ! 7"
    "out ?d = []" by (simp_all add: sel_init_cpu)
  note C = stack_index_ranges [OF w(1) h(1,2)]
  note D = stack_index_ranges [OF w(2) h(3,4)]
  from C 1 obtain s1 v where p: "push ?c = Inr s1" "reg_get s1 SP = Inr (- 1)"
    "reg_get s1 (operand_a ?c) = Inr v" "ram s1 ! 255 = v" by blast
  with g have "v = 42" by blast
  with p 1 have P: "\<exists>s1. push ?c = Inr s1 \<and> reg_get s1 SP = Inr (- 1) \<and>
      reg_get s1 0 = Inr 42 \<and> ram s1 ! 255 = 42" by auto
  from C 1 have Q: "\<exists>s1. call ?c = Inr s1 \<and> reg_get s1 SP = Inr (- 1) \<and> ram s1 ! 255 = 10"
    by (metis (no_types, lifting))
  from C 1 have R: "(\<exists>s1. pop ?c = Inr s1)" "(\<exists>s1. ret ?c = Inr s1)" by blast+
  from D 2 have S: "push ?d = Inl (IndexError, [])" "ret ?d = Inl (IndexError, [])"
    by (metis (no_types, lifting))+
  from w P Q R S show ?thesis by blast
qed

text \<open>
  C10 as stated fails: -256 is an SP value from -256 to 255, and PUSH at SP = -256
  decrements SP to -257 and raises IndexError on the stack write.
\<close>

theorem push_at_minus_256_counterexample:
  "push ((init_cpu 0 0)\<lparr>reg := [0, 0, 0, 0, 0, 0, 0, - 256]\<rparr>) = Inl (IndexError, [])"
proof -
  let ?d = "(init_cpu 0 0)\<lparr>reg := [0, 0, 0, 0, 0, 0, 0, - 256]\<rparr>"
  have w: "wf_cpu ?d" by (simp add: wf_cpu_def sel_init_cpu)
  have "push ?d = Inl (IndexError, out ?d)"
    by (rule push_IndexError [OF w, of 0]) (simp_all add: py_index_def sel_init_cpu)
  then show ?thesis by (simp add: sel_init_cpu)
qed

section \<open>Arithmetic\<close>

lemma reg_get_SomeD:
  assumes "reg_get s i = Inr v"
  obtains j where "py_index (reg s) i = Some j" and "reg s ! j = v" and "j < length (reg s)"
  using assms py_index_less [of "reg s" i]
  by (auto simp: reg_get_def raise_def split: option.splits)

lemma reg_inplace_eq:
  assumes "py_index (reg s) reg_a = Some j" and "reg_get s reg_a = Inr x"
    and "reg_get s reg_b = Inr y"
  shows "reg_inplace f reg_a reg_b s = Inr (s\<lparr>reg := (reg s)[j := f x y]\<rparr>)"
  using assms by (simp add: reg_inplace_def bnd_Inr reg_set_def)

lemma ALU_arith:
  "ALU 160 reg_a reg_b s = reg_inplace (+) reg_a reg_b (print (Lit ''ADDING'') s)"
  "ALU 161 reg_a reg_b s = reg_inplace (-) reg_a reg_b (print (Lit ''SUBTRACTING'') s)"
  "ALU 162 reg_a reg_b s = reg_inplace (*) reg_a reg_b (print (Lit ''MULTIPYING'') s)"
  by (simp_all add: ALU_def math_op_simps)

lemma reg_get_print: "reg_get s i = Inr v \<Longrightarrow> reg_get (print p s) i = Inr v"
  by (auto simp: reg_get_def print_def raise_def split: option.splits)

lemma arith_stores:
  assumes a: "reg_get s reg_a = Inr x" and b: "reg_get s reg_b = Inr y"
  shows "\<exists>s1. reg_inplace f reg_a reg_b (print p s) = Inr s1 \<and> reg_get s1 reg_a = Inr (f x y)"
proof -
  from a obtain j where j: "py_index (reg s) reg_a = Some j" and "j < length (reg s)"
    by (rule reg_get_SomeD)
  let ?p = "print p s"
  have jp: "py_index (reg ?p) reg_a = Some j"
    using j by (simp add: print_def)
  have "reg_inplace f reg_a reg_b ?p = Inr (?p\<lparr>reg := (reg ?p)[j := f x y]\<rparr>)"
    using jp reg_get_print [OF a] reg_get_print [OF b] by (rule reg_inplace_eq)
  moreover have "reg_get (?p\<lparr>reg := (reg ?p)[j := f x y]\<rparr>) reg_a = Inr (f x y)"
    using jp \<open>j < length (reg s)\<close> by (simp add: reg_get_def py_index_update print_def)
  ultimately show ?thesis by blast
qed

text \<open>
  C2, as the code has it. Whenever both registers can be read, ADD, SUB and MUL return
  and leave in reg[A] the sum, the difference and the product of the two values as
  integers, with no reduction to 8 bits.
\<close>

theorem ALU_arith_exact:
  assumes "reg_get s reg_a = Inr x" and "reg_get s reg_b = Inr y"
  shows "(\<exists>s1. ALU 160 reg_a reg_b s = Inr s1 \<and> reg_get s1 reg_a = Inr (x + y)) \<and>
         (\<exists>s1. ALU 161 reg_a reg_b s = Inr s1 \<and> reg_get s1 reg_a = Inr (x - y)) \<and>
         (\<exists>s1. ALU 162 reg_a reg_b s = Inr s1 \<and> reg_get s1 reg_a = Inr (x * y))"
  unfolding ALU_arith
  using arith_stores [OF assms, of "(+)"] arith_stores [OF assms, of "(-)"]
    arith_stores [OF assms, of "(*)"]
  by simp

theorem ALU_arith_exact_witness:
  "reg_get ((init_cpu 0 1)\<lparr>reg := [3, 100, 0, 0, 0, 0, 0, 244]\<rparr>) 0 = Inr 3 \<and>
   reg_get ((init_cpu 0 1)\<lparr>reg := [3, 100, 0, 0, 0, 0, 0, 244]\<rparr>) 1 = Inr 100 \<and>
   (\<exists>s1. ALU 160 0 1 ((init_cpu 0 1)\<lparr>reg := [3, 100, 0, 0, 0, 0, 0, 244]\<rparr>) = Inr s1 \<and>
      reg_get s1 0 = Inr 103) \<and>
   (\<exists>s1. ALU 161 0 1 ((init_cpu 0 1)\<lparr>reg := [3, 100, 0, 0, 0, 0, 0, 244]\<rparr>) = Inr s1 \<and>
      reg_get s1 0 = Inr (- 97)) \<and>
   (\<exists>s1. ALU 162 0 1 ((init_cpu 0 1)\<lparr>reg := [3, 100, 0, 0, 0, 0, 0, 244]\<rparr>) = Inr s1 \<and>
      reg_get s1 0 = Inr 300)"
proof -
  let ?c = "(init_cpu 0 1)\<lparr>reg := [3, 100, 0, 0, 0, 0, 0, 244]\<rparr>"
  have a: "reg_get ?c 0 = Inr 3" and b: "reg_get ?c 1 = Inr 100"
    by (simp_all add: reg_get_def py_index_def)
  show ?thesis
    using a b ALU_arith_exact [OF a b] by simp
qed

text \<open>
  C2 as stated fails: with 200 and 100 in the two registers, ADD leaves 300 in reg[A],
  which is neither the sum reduced to 8 bits (44) nor a value from 0 to 255.
\<close>

theorem ADD_no_wrap_counterexample:
  "ALU 160 0 1 ((init_cpu 0 1)\<lparr>reg := [200, 100, 0, 0, 0, 0, 0, 244]\<rparr>) =
     Inr ((init_cpu 0 1)\<lparr>reg := [300, 100, 0, 0, 0, 0, 0, 244], out := [Lit ''ADDING'', NL]\<rparr>) \<and>
   (300 :: int) \<noteq> (200 + 100) mod 256 \<and> \<not> (300 :: int) \<le> 255"
  by (simp add: ALU_arith reg_inplace_def reg_get_def reg_set_def py_index_def print_def
      bnd_Inr sel_init_cpu)

section \<open>The engine\<close>

lemma bnd_InrD: "bnd m f = Inr y \<Longrightarrow> \<exists>x. m = Inr x \<and> f x = Inr y"
  by (cases m) (simp_all add: bnd_def)

lemma alu_class_cases: "alu_class ireg = 0 \<or> alu_class ireg = 1"
proof -
  define m where "m = push_bit 2 ireg mod 255"
  have "0 \<le> m" "m < 255"
    by (simp_all add: m_def)
  then have "m div 128 = 0 \<or> m div 128 = 1"
    by presburger
  then show ?thesis
    by (simp add: alu_class_def drop_bit_eq_div m_def)
qed

lemma reg_set_PC: "reg_set s i v = Inr s' \<Longrightarrow> PC s' = PC s"
  by (auto simp: reg_set_def raise_def split: option.splits)

lemma ram_set_PC: "ram_set s i v = Inr s' \<Longrightarrow> PC s' = PC s"
  by (auto simp: ram_set_def raise_def split: option.splits)

lemma ldi_PC: "ldi s = Inr s' \<Longrightarrow> PC s' = PC s"
  by (simp add: ldi_def reg_set_PC)

lemma prn_PC: "prn s = Inr s' \<Longrightarrow> PC s' = PC s"
  by (auto simp: prn_def print_def dest!: bnd_InrD)

lemma push_PC: "push s = Inr s' \<Longrightarrow> PC s' = PC s"
  by (auto simp: push_def dest!: bnd_InrD) (metis reg_set_PC ram_set_PC)

lemma pop_PC: "pop s = Inr s' \<Longrightarrow> PC s' = PC s"
  by (auto simp: pop_def Let_def dest!: bnd_InrD) (metis reg_set_PC)

lemma reg_inplace_PC: "reg_inplace f a b (print p s) = Inr s' \<Longrightarrow> PC s' = PC s"
  by (auto simp: reg_inplace_def print_def dest!: bnd_InrD dest: reg_set_PC)

lemma ALU_PC: "ALU op a b s = Inr s' \<Longrightarrow> PC s' = PC s"
  by (auto simp: ALU_def math_op_simps raise_def Let_def
      dest!: bnd_InrD dest: reg_inplace_PC split: if_splits)

lemma ALU_opcode: "ALU op a b s = Inr s' \<Longrightarrow> op \<in> {160, 161, 162, 167}"
  by (auto simp: ALU_def math_op_simps raise_def split: if_splits)

lemma ram_read_PC: "ram_read s a = Inr (v, s') \<Longrightarrow> PC s' = PC s"
  by (auto simp: ram_read_def Let_def ram_get_def raise_def bnd_def split: option.splits)

lemma fetch_PC: "fetch s = Inr (ireg, s1) \<Longrightarrow> PC s1 = PC s"
  by (auto simp: fetch_def Let_def dest!: bnd_InrD dest!: ram_read_PC)

lemma binary_op_SomeD:
  "binary_op ireg = Some name \<Longrightarrow>
   (ireg, name) \<in> {(1, ''HLT''), (130, ''LDI''), (71, ''PRN''), (69, ''PUSH''), (70, ''POP''),
      (80, ''CALL''), (17, ''RET''), (84, ''JMP''), (85, ''JEQ''), (86, ''JNE'')}"
  by (auto simp: binary_op_def split: if_splits)

lemma instructions_simps:
  "instructions ''HLT'' = Some halt" "instructions ''LDI'' = Some ldi"
  "instructions ''PRN'' = Some prn" "instructions ''PUSH'' = Some push"
  "instructions ''POP'' = Some pop" "instructions ''CALL'' = Some call"
  "instructions ''RET'' = Some ret" "instructions ''JMP'' = Some jmp"
  "instructions ''JEQ'' = Some jeq" "instructions ''JNE'' = Some jne"
  by (simp_all add: instructions_def)

text \<open>An opcode whose handler returns is one of thirteen; only five of them set PC.\<close>

lemma execute_InrD:
  assumes "execute ireg s1 = Inr s2"
  shows "(ireg \<in> {130, 71, 69, 70, 160, 161, 162, 167} \<and> PC s2 = PC s1) \<or>
         ireg \<in> {80, 17, 84, 85, 86}"
proof -
  consider "alu_class ireg = 1" | "alu_class ireg = 0"
    using alu_class_cases [of ireg] by blast
  then show ?thesis
  proof cases
    case 1
    with assms have "ALU ireg (operand_a s1) (operand_b s1) s1 = Inr s2"
      by (simp add: execute_def)
    then show ?thesis
      using ALU_opcode ALU_PC by blast
  next
    case 2
    with assms obtain name where n: "binary_op ireg = Some name"
      by (auto simp: execute_def raise_def split: option.splits)
    from binary_op_SomeD [OF n] 2 assms n show ?thesis
      by (auto simp: execute_def instructions_simps halt_def raise_def
          dest: ldi_PC prn_PC push_PC pop_PC)
  qed
qed

lemma sets_PC_opcodes:
  "\<not> sets_PC 130" "\<not> sets_PC 71" "\<not> sets_PC 69" "\<not> sets_PC 70"
  "\<not> sets_PC 160" "\<not> sets_PC 161" "\<not> sets_PC 162" "\<not> sets_PC 167"
  "sets_PC 80" "sets_PC 17" "sets_PC 84" "sets_PC 85" "sets_PC 86"
  by (simp_all add: sets_PC_def push_bit_eq_mult drop_bit_eq_div)

lemma bit4_opcodes:
  "\<not> bit (130::int) 4" "\<not> bit (71::int) 4" "\<not> bit (69::int) 4" "\<not> bit (70::int) 4"
  "\<not> bit (160::int) 4" "\<not> bit (161::int) 4" "\<not> bit (162::int) 4" "\<not> bit (167::int) 4"
  "bit (80::int) 4" "bit (17::int) 4" "bit (84::int) 4" "bit (85::int) 4" "bit (86::int) 4"
  by (simp_all add: bit_iff_odd)

lemma count_opcodes:
  "drop_bit 6 (130::int) = 2" "drop_bit 6 (71::int) = 1" "drop_bit 6 (69::int) = 1"
  "drop_bit 6 (70::int) = 1" "drop_bit 6 (160::int) = 2" "drop_bit 6 (161::int) = 2"
  "drop_bit 6 (162::int) = 2" "drop_bit 6 (167::int) = 2"
  by (simp_all add: drop_bit_eq_div)

text \<open>
  C1. For every pass of the loop in which the fetch and the handler return: the pass
  returns the handler's machine with \<^verbatim>\<open>move_PC\<close> applied; when bit 4 of the opcode (sets
  PC itself) is clear, PC after the pass is PC before it plus the value of the opcode's
  two top bits plus 1; when the bit is set, \<^verbatim>\<open>move_PC\<close> changes nothing, so PC is what
  the handler left.
\<close>

theorem PC_advance:
  assumes "fetch s = Inr (ireg, s1)" and "execute ireg s1 = Inr s2"
  shows "cycle s = Inr (move_PC ireg s2) \<and>
         (\<not> bit ireg 4 \<longrightarrow> PC (move_PC ireg s2) = PC s + (take_bit 2 (drop_bit 6 ireg) + 1)) \<and>
         (bit ireg 4 \<longrightarrow> move_PC ireg s2 = s2)"
proof -
  have c: "cycle s = Inr (move_PC ireg s2)"
    using assms by (simp add: cycle_def bnd_Inr)
  have pc: "PC s1 = PC s"
    using assms(1) by (rule fetch_PC)
  from execute_InrD [OF assms(2)] pc
  have "(\<not> bit ireg 4 \<longrightarrow> PC (move_PC ireg s2) = PC s + (take_bit 2 (drop_bit 6 ireg) + 1)) \<and>
         (bit ireg 4 \<longrightarrow> move_PC ireg s2 = s2)"
    by (auto simp: move_PC_def sets_PC_opcodes bit4_opcodes count_opcodes)
  with c show ?thesis by simp
qed

text \<open>Two machines one fetch away from an instruction: LDI R0,8 and JEQ R0 at address 0.\<close>

lemma fetch_example:
  "fetch ((init_cpu 5 5)\<lparr>ram := i # a # b # replicate 253 0\<rparr>) =
     Inr (i, (init_cpu a b)\<lparr>ram := i # a # b # replicate 253 0, MAR := Some 2, MDR := Some b\<rparr>)"
  by (simp add: fetch_def ram_read_def ram_get_def py_index_def bnd_Inr Let_def init_cpu_def)

lemma alu_class_opcodes:
  "alu_class 130 = 0" "alu_class 85 = 0" "alu_class 163 = 1" "alu_class 0 = 0"
  by (simp_all add: alu_class_def push_bit_eq_mult drop_bit_eq_div)

lemma binary_op_simps:
  "binary_op 130 = Some ''LDI''" "binary_op 85 = Some ''JEQ''" "binary_op 0 = None"
  by (simp_all add: binary_op_def)

theorem PC_advance_witness:
  "(\<exists>s1 s2. fetch ((init_cpu 5 5)\<lparr>ram := 130 # 0 # 8 # replicate 253 0\<rparr>) = Inr (130, s1) \<and>
      execute 130 s1 = Inr s2 \<and> PC s2 = 0 \<and>
      cycle ((init_cpu 5 5)\<lparr>ram := 130 # 0 # 8 # replicate 253 0\<rparr>) = Inr (move_PC 130 s2) \<and>
      PC (move_PC 130 s2) = 3) \<and>
   (\<exists>s1 s2. fetch ((init_cpu 5 5)\<lparr>ram := 85 # 0 # 0 # replicate 253 0\<rparr>) = Inr (85, s1) \<and>
      execute 85 s1 = Inr s2 \<and> PC s2 = 2 \<and>
      cycle ((init_cpu 5 5)\<lparr>ram := 85 # 0 # 0 # replicate 253 0\<rparr>) = Inr s2)"
proof -
  let ?c = "(init_cpu 5 5)\<lparr>ram := 130 # 0 # 8 # replicate 253 0\<rparr>"
  let ?c1 = "(init_cpu 0 8)\<lparr>ram := 130 # 0 # 8 # replicate 253 0, MAR := Some 2, MDR := Some 8\<rparr>"
  let ?c2 = "?c1\<lparr>reg := [8, 0, 0, 0, 0, 0, 0, 244]\<rparr>"
  let ?d = "(init_cpu 5 5)\<lparr>ram := 85 # 0 # 0 # replicate 253 0\<rparr>"
  let ?d1 = "(init_cpu 0 0)\<lparr>ram := 85 # 0 # 0 # replicate 253 0, MAR := Some 2, MDR := Some 0\<rparr>"
  let ?d2 = "?d1\<lparr>PC := 2\<rparr>"
  have f: "fetch ?c = Inr (130, ?c1)" by (rule fetch_example)
  have e: "execute 130 ?c1 = Inr ?c2"
    by (simp add: execute_def alu_class_opcodes binary_op_simps instructions_simps ldi_def
        reg_set_def py_index_def sel_init_cpu reg_init_cpu)
  have g: "fetch ?d = Inr (85, ?d1)" by (rule fetch_example)
  have h: "execute 85 ?d1 = Inr ?d2"
    by (simp add: execute_def alu_class_opcodes binary_op_simps instructions_simps jeq_def
        reg_get_def py_index_def sel_init_cpu reg_init_cpu bnd_Inr)
  have b: "\<not> bit (130::int) 4" "bit (85::int) 4" "take_bit 2 (drop_bit 6 (130::int)) + 1 = 3"
    by (simp_all add: bit_iff_odd drop_bit_eq_div take_bit_eq_mod)
  have p: "PC ?c = 0" "PC ?c2 = 0" "PC ?d2 = 2" by (simp_all add: sel_init_cpu)
  from PC_advance [OF f e] b p
  have 1: "cycle ?c = Inr (move_PC 130 ?c2) \<and> PC (move_PC 130 ?c2) = 3"
    by simp
  from PC_advance [OF g h] b
  have 2: "cycle ?d = Inr ?d2"
    by simp
  from f e p 1 g h 2 show ?thesis
    by blast
qed

section \<open>Opcodes in neither table\<close>

lemma ram_read_out: "ram_read s a = Inr (v, s') \<Longrightarrow> out s' = out s"
  by (auto simp: ram_read_def Let_def ram_get_def raise_def bnd_def split: option.splits)

lemma fetch_out: "fetch s = Inr (ireg, s1) \<Longrightarrow> out s1 = out s"
  by (auto simp: fetch_def Let_def dest!: bnd_InrD dest!: ram_read_out)

text \<open>
  The last branch of the loop of \<^verbatim>\<open>run\<close>, which prints the opcode and exits with
  status 1, is never taken (\<open>alu_class_cases\<close>): an opcode that is not classified as
  ALU and is not a key of \<^verbatim>\<open>binary_op\<close> raises KeyError in the branch before it.
\<close>

lemma unmapped_basic_opcode:
  assumes "alu_class ireg \<noteq> 1" and "binary_op ireg = None"
  shows "execute ireg s = Inl (KeyError ireg, out s)"
  using assms alu_class_cases [of ireg] by (auto simp: execute_def raise_def)

lemma unmapped_ALU:
  assumes "\<And>name. math_op name \<noteq> Some ireg"
  shows "ALU ireg a b s = Inl (Exception ''Unsupported ALU operation'', out s)"
proof -
  have "Some ireg \<noteq> math_op name" for name
    using assms [of name] by auto
  then show ?thesis
    by (simp add: ALU_def raise_def)
qed

text \<open>
  C3, as the code has it. When the fetch returns an opcode that the engine classifies
  as ALU and that is no value of \<^verbatim>\<open>math_op\<close>, the pass of the loop and so \<^verbatim>\<open>run\<close>
  end with the exception \<^verbatim>\<open>Exception("Unsupported ALU operation")\<close>; the program
  prints nothing more, so no text of its own names the opcode.
\<close>

theorem unmapped_ALU_opcode_raises:
  assumes "fetch s = Inr (ireg, s1)" and "alu_class ireg = 1"
    and "\<And>name. math_op name \<noteq> Some ireg"
  shows "cycle s = Inl (Exception ''Unsupported ALU operation'', out s) \<and>
         run s = Some (Exception ''Unsupported ALU operation'', out s)"
proof -
  have "execute ireg s1 = Inl (Exception ''Unsupported ALU operation'', out s)"
    using assms(2) unmapped_ALU [OF assms(3)] fetch_out [OF assms(1)]
    by (simp add: execute_def)
  then have c: "cycle s = Inl (Exception ''Unsupported ALU operation'', out s)"
    using assms(1) by (simp add: cycle_def bnd_Inr bnd_Inl)
  then show ?thesis
    by (subst run.simps) simp
qed

lemma math_op_values: "math_op name = Some v \<Longrightarrow> v \<in> {160, 161, 162, 167}"
  by (auto simp: math_op_def split: if_splits)

theorem unmapped_ALU_opcode_raises_witness:
  "fetch ((init_cpu 5 5)\<lparr>ram := 163 # 0 # 1 # replicate 253 0\<rparr>) =
     Inr (163, (init_cpu 0 1)\<lparr>ram := 163 # 0 # 1 # replicate 253 0, MAR := Some 2, MDR := Some 1\<rparr>) \<and>
   alu_class 163 = 1 \<and> math_op ''ADD'' \<noteq> Some 163 \<and> math_op ''CMP'' \<noteq> Some 163 \<and>
   cycle ((init_cpu 5 5)\<lparr>ram := 163 # 0 # 1 # replicate 253 0\<rparr>) =
     Inl (Exception ''Unsupported ALU operation'', [])"
proof -
  let ?c = "(init_cpu 5 5)\<lparr>ram := 163 # 0 # 1 # replicate 253 0\<rparr>"
  have f: "fetch ?c = Inr (163, (init_cpu 0 1)\<lparr>ram := 163 # 0 # 1 # replicate 253 0,
             MAR := Some 2, MDR := Some 1\<rparr>)"
    by (rule fetch_example)
  have a: "alu_class 163 = 1" by (rule alu_class_opcodes)
  have m: "math_op name \<noteq> Some 163" for name
    using math_op_values [of name 163] by auto
  from unmapped_ALU_opcode_raises [OF f a m] f a m show ?thesis
    by (simp add: sel_init_cpu)
qed

text \<open>
  C3 as stated fails: opcode 163 is in neither table, and a machine that fetches it ends
  with \<^verbatim>\<open>Exception("Unsupported ALU operation")\<close>, having printed nothing: there is no
  diagnostic with the opcode and no \<^verbatim>\<open>sys.exit\<close> status.
\<close>

theorem opcode_163_counterexample:
  "binary_op 163 = None \<and> math_op ''ADD'' \<noteq> Some 163 \<and> math_op ''SUB'' \<noteq> Some 163 \<and>
   math_op ''MUL'' \<noteq> Some 163 \<and> math_op ''CMP'' \<noteq> Some 163 \<and>
   run ((init_cpu 5 5)\<lparr>ram := 163 # 0 # 1 # replicate 253 0\<rparr>) =
     Some (Exception ''Unsupported ALU operation'', [])"
proof -
  let ?c = "(init_cpu 5 5)\<lparr>ram := 163 # 0 # 1 # replicate 253 0\<rparr>"
  let ?c1 = "(init_cpu 0 1)\<lparr>ram := 163 # 0 # 1 # replicate 253 0, MAR := Some 2, MDR := Some 1\<rparr>"
  have f: "fetch ?c = Inr (163, ?c1)"
    by (rule fetch_example)
  have m: "math_op name \<noteq> Some 163" for name
    using math_op_values [of name 163] by auto
  have "execute 163 ?c1 = Inl (Exception ''Unsupported ALU operation'', [])"
    using unmapped_ALU [of 163 0 1 ?c1] m
    by (simp add: execute_def alu_class_opcodes sel_init_cpu)
  then have "cycle ?c = Inl (Exception ''Unsupported ALU operation'', [])"
    using f by (simp add: cycle_def bnd_Inr bnd_Inl)
  then have "run ?c = Some (Exception ''Unsupported ALU operation'', [])"
    by (subst run.simps) simp
  with m show ?thesis
    by (simp add: binary_op_def)
qed

section \<open>The loader\<close>

lemma ram_set_at:
  "a < length (ram s) \<Longrightarrow> ram_set s (int a) v = Inr (s\<lparr>ram := (ram s)[a := v]\<rparr>)"
  by (simp add: ram_set_def py_index_def)

lemma ram_set_end:
  "ram_set s (int (length (ram s))) v = Inl (IndexError, out s)"
  by (simp add: ram_set_def py_index_def raise_def)

lemma image_values_Cons:
  "image_values strip (l # program) =
     (if strip (takeWhile (\<lambda>c. c \<noteq> CHR ''#'') (strip l)) = [] then image_values strip program
      else strip (takeWhile (\<lambda>c. c \<noteq> CHR ''#'') (strip l)) # image_values strip program)"
  by (simp add: image_values_def)

text \<open>
  The loop of the loader in closed form, from address \<open>a\<close>: IndexError when more kept
  lines than free cells come before the first bad numeral, ValueError at the first bad
  numeral otherwise; with neither, the values are in consecutive cells, and the loop
  ends as the reading of the file does.
\<close>

lemma load_lines_closed:
  assumes "a \<le> length (ram s)"
  shows "load_lines strip int2 program ending (int a) s =
     (let vals = image_values strip program;
          good = takeWhile (\<lambda>v. int2 v \<noteq> None) vals
      in if length (ram s) - a < length good then Inl (IndexError, out s)
         else if length good < length vals then Inl (ValueError, out s)
         else (case ending of
                 None \<Rightarrow> Inr (s\<lparr>ram := take a (ram s) @ List.map_filter int2 vals @
                                           drop (a + length vals) (ram s)\<rparr>)
               | Some e \<Rightarrow> Inl (e, out s)))"
  using assms
proof (induction program arbitrary: a s)
  case Nil
  then show ?case
    by (simp add: image_values_def List.map_filter_simps raise_def split: option.splits)
next
  case (Cons l program)
  let ?v = "strip (takeWhile (\<lambda>c. c \<noteq> CHR ''#'') (strip l))"
  show ?case
  proof (cases "?v = []")
    case True
    then show ?thesis
      using Cons.IH [OF Cons.prems] by (simp add: image_values_Cons Let_def)
  next
    case False
    show ?thesis
    proof (cases "int2 ?v")
      case None
      with False show ?thesis
        by (simp add: image_values_Cons Let_def raise_def)
    next
      case (Some num)
      show ?thesis
      proof (cases "a = length (ram s)")
        case True
        with False Some show ?thesis
          by (simp add: image_values_Cons Let_def ram_set_end bnd_Inl)
      next
        case ne: False
        with Cons.prems have lt: "a < length (ram s)" by simp
        let ?s1 = "s\<lparr>ram := (ram s)[a := num]\<rparr>"
        have step: "load_lines strip int2 (l # program) ending (int a) s =
                    load_lines strip int2 program ending (int (Suc a)) ?s1"
          using False Some lt by (simp add: Let_def ram_set_at bnd_Inr add.commute)
        have tk: "take (Suc a) ((ram s)[a := num]) = take a (ram s) @ [num]"
          using lt by (simp add: take_Suc_conv_app_nth)
        have "Suc a \<le> length (ram ?s1)" using lt by simp
        note ih = Cons.IH [OF this]
        have ar: "(length (ram s) - Suc a < n) = (length (ram s) - a < Suc n)" for n
          using lt by arith
        show ?thesis
          unfolding step ih using False Some lt
          by (simp add: image_values_Cons Let_def List.map_filter_simps tk ar
              split: option.splits)
      qed
    qed
  qed
qed

lemma except_other:
  "e \<noteq> FileNotFoundError \<Longrightarrow> except_FileNotFoundError (Inl (e, printed)) = Inl (e, printed)"
  by (simp add: except_FileNotFoundError_def)

lemma except_FileNotFoundError_simps:
  "except_FileNotFoundError (Inl (FileNotFoundError, printed)) =
     Inl (SystemExit (Some 2), printed @ [Lit ''File not found'', NL])"
  "except_FileNotFoundError (Inl (IndexError, printed)) = Inl (IndexError, printed)"
  "except_FileNotFoundError (Inl (ValueError, printed)) = Inl (ValueError, printed)"
  "except_FileNotFoundError (Inr s) = Inr s"
  by (simp_all add: except_FileNotFoundError_def)

lemma image_values_replicate:
  "strip (takeWhile (\<lambda>c. c \<noteq> CHR ''#'') (strip l)) = l \<Longrightarrow> l \<noteq> [] \<Longrightarrow>
   image_values strip (replicate n l) = replicate n l"
  by (induction n) (simp_all add: image_values_def)

text \<open>
  C9, as the code has it. An argument list whose length is not 2 prints the usage error
  and exits with status 1. With two arguments, FileNotFoundError from \<^verbatim>\<open>open\<close> prints an
  error and exits with status 2, and every other exception of \<^verbatim>\<open>open\<close> (IsADirectoryError,
  PermissionError, ...) goes on uncaught. When \<^verbatim>\<open>open\<close> returns, loading ends with
  IndexError when more kept lines than the memory has cells come before the first line
  that is no binary numeral, and otherwise with ValueError at the first such line; with
  neither, it ends as the reading of the file does: by the exception the reading raised
  (printing the error and exiting with status 2 when that is FileNotFoundError, uncaught
  otherwise), or, at the end of the file, with the values in consecutive cells from
  address 0. No exit status is set but 1 and 2. In every failing case \<^verbatim>\<open>load\<close> returns no
  machine, so \<^verbatim>\<open>run\<close> does not start.
\<close>

theorem load_fatal_cases:
  "(length argv \<noteq> 2 \<longrightarrow>
      load strip int2 argv files s =
        Inl (SystemExit (Some 1), out s @ [Lit ''ERROR: Must have file name'', NL])) \<and>
   (length argv = 2 \<and> files (argv ! 1) = OpenRaises FileNotFoundError \<longrightarrow>
      load strip int2 argv files s =
        Inl (SystemExit (Some 2), out s @ [Lit ''File not found'', NL])) \<and>
   (length argv = 2 \<and> files (argv ! 1) = OpenRaises e \<and> e \<noteq> FileNotFoundError \<longrightarrow>
      load strip int2 argv files s = Inl (e, out s)) \<and>
   (length argv = 2 \<and> files (argv ! 1) = Opened program ending \<longrightarrow>
      load strip int2 argv files s =
        (let vals = image_values strip program;
             good = takeWhile (\<lambda>v. int2 v \<noteq> None) vals
         in if length (ram s) < length good then Inl (IndexError, out s)
            else if length good < length vals then Inl (ValueError, out s)
            else (case ending of
                    None \<Rightarrow>
                      Inr (s\<lparr>ram := List.map_filter int2 vals @ drop (length vals) (ram s)\<rparr>)
                  | Some FileNotFoundError \<Rightarrow>
                      Inl (SystemExit (Some 2), out s @ [Lit ''File not found'', NL])
                  | Some e' \<Rightarrow> Inl (e', out s))))"
proof -
  have 1: "length argv \<noteq> 2 \<Longrightarrow> load strip int2 argv files s =
        Inl (SystemExit (Some 1), out s @ [Lit ''ERROR: Must have file name'', NL])"
    by (simp add: load_def raise_def print_def)
  have 2: "load strip int2 argv files s =
        Inl (SystemExit (Some 2), out s @ [Lit ''File not found'', NL])"
    if "length argv = 2" and "files (argv ! 1) = OpenRaises FileNotFoundError"
    using that by (simp add: load_def raise_def except_FileNotFoundError_simps)
  have 3: "load strip int2 argv files s = Inl (e, out s)"
    if "length argv = 2" and "files (argv ! 1) = OpenRaises e" and "e \<noteq> FileNotFoundError"
    using that by (simp add: load_def raise_def except_other)
  have 4: "load strip int2 argv files s =
        (let vals = image_values strip program;
             good = takeWhile (\<lambda>v. int2 v \<noteq> None) vals
         in if length (ram s) < length good then Inl (IndexError, out s)
            else if length good < length vals then Inl (ValueError, out s)
            else (case ending of
                    None \<Rightarrow>
                      Inr (s\<lparr>ram := List.map_filter int2 vals @ drop (length vals) (ram s)\<rparr>)
                  | Some FileNotFoundError \<Rightarrow>
                      Inl (SystemExit (Some 2), out s @ [Lit ''File not found'', NL])
                  | Some e' \<Rightarrow> Inl (e', out s)))"
    if a: "length argv = 2" and f: "files (argv ! 1) = Opened program ending"
  proof -
    note closed = load_lines_closed [of 0 s strip int2 program ending, simplified]
    have "load strip int2 argv files s =
          except_FileNotFoundError (load_lines strip int2 program ending 0 s)"
      using a f by (simp add: load_def)
    then show ?thesis
      by (simp add: closed Let_def except_FileNotFoundError_def
          split: option.splits error.splits)
  qed
  from 1 2 3 4 show ?thesis
    by blast
qed

lemma strip_blanks_examples:
  "strip_blanks ''10000010 # LDI'' = ''10000010 # LDI''" "strip_blanks ''10000010 '' = ''10000010''"
  "strip_blanks ''2'' = ''2''" "strip_blanks ''1'' = ''1''" "strip_blanks '''' = ''''"
  "strip_blanks ''00000001'' = ''00000001''" "strip_blanks ''# the end'' = ''# the end''"
  by (simp_all add: strip_blanks_def)

lemma binary_numeral_examples:
  "binary_numeral ''10000010'' = Some 130" "binary_numeral ''2'' = None"
  "binary_numeral ''1'' = Some 1" "binary_numeral ''00000001'' = Some 1"
  by (simp_all add: binary_numeral_def)

theorem load_fatal_cases_witness:
  "load strip_blanks binary_numeral [''cpu.py''] (\<lambda>name. OpenRaises FileNotFoundError)
       (init_cpu 0 0) =
     Inl (SystemExit (Some 1), [Lit ''ERROR: Must have file name'', NL]) \<and>
   load strip_blanks binary_numeral [''cpu.py'', ''none.ls8'']
       (\<lambda>name. OpenRaises FileNotFoundError) (init_cpu 0 0) =
     Inl (SystemExit (Some 2), [Lit ''File not found'', NL]) \<and>
   load strip_blanks binary_numeral [''cpu.py'', ''/tmp'']
       (\<lambda>name. OpenRaises IsADirectoryError) (init_cpu 0 0) =
     Inl (IsADirectoryError, []) \<and>
   load strip_blanks binary_numeral [''cpu.py'', ''p.ls8'']
       (\<lambda>name. Opened [''10000010 # LDI'', ''2''] None) (init_cpu 0 0) =
     Inl (ValueError, []) \<and>
   load strip_blanks binary_numeral [''cpu.py'', ''p.ls8'']
       (\<lambda>name. Opened [''00000001''] (Some UnicodeDecodeError)) (init_cpu 0 0) =
     Inl (UnicodeDecodeError, []) \<and>
   load strip_blanks binary_numeral [''cpu.py'', ''p.ls8'']
       (\<lambda>name. Opened ['''', ''# the end'', ''00000001''] None) (init_cpu 0 0) =
     Inr ((init_cpu 0 0)\<lparr>ram := 1 # drop 1 (replicate 256 0)\<rparr>)"
proof -
  let ?s = "init_cpu 0 0"
  have 1: "load strip_blanks binary_numeral [''cpu.py''] (\<lambda>name. OpenRaises FileNotFoundError)
       ?s = Inl (SystemExit (Some 1), [Lit ''ERROR: Must have file name'', NL])"
    using load_fatal_cases [of "[''cpu.py'']" strip_blanks binary_numeral
        "\<lambda>name. OpenRaises FileNotFoundError" ?s]
    by (simp add: sel_init_cpu)
  have 2: "load strip_blanks binary_numeral [''cpu.py'', ''none.ls8'']
       (\<lambda>name. OpenRaises FileNotFoundError) ?s =
     Inl (SystemExit (Some 2), [Lit ''File not found'', NL])"
    using load_fatal_cases [of "[''cpu.py'', ''none.ls8'']" strip_blanks binary_numeral
        "\<lambda>name. OpenRaises FileNotFoundError" ?s]
    by (simp add: sel_init_cpu)
  have 3: "load strip_blanks binary_numeral [''cpu.py'', ''/tmp'']
       (\<lambda>name. OpenRaises IsADirectoryError) ?s = Inl (IsADirectoryError, [])"
    using load_fatal_cases [of "[''cpu.py'', ''/tmp'']" strip_blanks binary_numeral
        "\<lambda>name. OpenRaises IsADirectoryError" ?s IsADirectoryError]
    by (simp add: sel_init_cpu)
  have 4: "load strip_blanks binary_numeral [''cpu.py'', ''p.ls8'']
       (\<lambda>name. Opened [''10000010 # LDI'', ''2''] None) ?s = Inl (ValueError, [])"
    using load_fatal_cases [of "[''cpu.py'', ''p.ls8'']" strip_blanks binary_numeral
        "\<lambda>name. Opened [''10000010 # LDI'', ''2''] None" ?s _
        "[''10000010 # LDI'', ''2'']" None]
    by (simp add: sel_init_cpu image_values_def strip_blanks_examples binary_numeral_examples)
  have 5: "load strip_blanks binary_numeral [''cpu.py'', ''p.ls8'']
       (\<lambda>name. Opened [''00000001''] (Some UnicodeDecodeError)) ?s =
     Inl (UnicodeDecodeError, [])"
    using load_fatal_cases [of "[''cpu.py'', ''p.ls8'']" strip_blanks binary_numeral
        "\<lambda>name. Opened [''00000001''] (Some UnicodeDecodeError)" ?s _
        "[''00000001'']" "Some UnicodeDecodeError"]
    by (simp add: sel_init_cpu image_values_def strip_blanks_examples binary_numeral_examples)
  have 6: "load strip_blanks binary_numeral [''cpu.py'', ''p.ls8'']
       (\<lambda>name. Opened ['''', ''# the end'', ''00000001''] None) ?s =
     Inr (?s\<lparr>ram := 1 # drop 1 (replicate 256 0)\<rparr>)"
    using load_fatal_cases [of "[''cpu.py'', ''p.ls8'']" strip_blanks binary_numeral
        "\<lambda>name. Opened ['''', ''# the end'', ''00000001''] None" ?s _
        "['''', ''# the end'', ''00000001'']" None]
    by (simp add: sel_init_cpu image_values_def strip_blanks_examples binary_numeral_examples)
  from 1 2 3 4 5 6 show ?thesis by blast
qed

text \<open>
  C9 as stated fails: with the file argument given, the file there and readable to its
  end, and every kept line a binary numeral, an image of 257 lines still fails to load,
  with IndexError at the write to \<^verbatim>\<open>ram[256]\<close>.
\<close>

theorem oversize_image_counterexample:
  "length [''cpu.py'', ''big.ls8''] = 2 \<and> binary_numeral ''1'' = Some 1 \<and>
   load strip_blanks binary_numeral [''cpu.py'', ''big.ls8'']
       (\<lambda>name. Opened (replicate 257 ''1'') None) (init_cpu 0 0) =
     Inl (IndexError, [])"
proof -
  let ?s = "init_cpu 0 0"
  have v: "image_values strip_blanks (replicate 257 ''1'') = replicate 257 ''1''"
    by (rule image_values_replicate) (simp_all add: strip_blanks_examples)
  have "load strip_blanks binary_numeral [''cpu.py'', ''big.ls8'']
          (\<lambda>name. Opened (replicate 257 ''1'') None) ?s =
        except_FileNotFoundError
          (load_lines strip_blanks binary_numeral (replicate 257 ''1'') None 0 ?s)"
    by (simp add: load_def)
  also have "\<dots> = Inl (IndexError, [])"
    using load_lines_closed [of 0 ?s strip_blanks binary_numeral "replicate 257 ''1''" None]
    by (simp add: v Let_def binary_numeral_examples sel_init_cpu
        except_FileNotFoundError_simps)
  finally show ?thesis
    by (simp add: binary_numeral_examples)
qed

section \<open>The list sizes never change\<close>

text \<open>
  The handlers assign to cells of the two lists and never resize them, so every machine
  that \<^verbatim>\<open>load\<close> and the loop of \<^verbatim>\<open>run\<close> reach from a constructed one has 256 memory
  cells and 8 registers.
\<close>

lemma reg_set_wf: "reg_set s i v = Inr s' \<Longrightarrow> wf_cpu s \<Longrightarrow> wf_cpu s'"
  by (auto simp: reg_set_def raise_def wf_cpu_def split: option.splits)

lemma ram_set_wf: "ram_set s i v = Inr s' \<Longrightarrow> wf_cpu s \<Longrightarrow> wf_cpu s'"
  by (auto simp: ram_set_def raise_def wf_cpu_def split: option.splits)

lemma ram_read_wf: "ram_read s a = Inr (v, s') \<Longrightarrow> wf_cpu s \<Longrightarrow> wf_cpu s'"
  by (auto simp: ram_read_def Let_def wf_cpu_def dest!: bnd_InrD)

lemma wf_cpu_fields:
  "wf_cpu (s\<lparr>PC := p\<rparr>) = wf_cpu s" "wf_cpu (s\<lparr>FL := f\<rparr>) = wf_cpu s"
  "wf_cpu (s\<lparr>operand_a := a\<rparr>) = wf_cpu s" "wf_cpu (s\<lparr>operand_b := b\<rparr>) = wf_cpu s"
  "wf_cpu (print p' s) = wf_cpu s"
  by (simp_all add: wf_cpu_def print_def)

lemma handlers_wf:
  assumes "wf_cpu s"
  shows "call s = Inr s' \<Longrightarrow> wf_cpu s'" and "ret s = Inr s' \<Longrightarrow> wf_cpu s'"
    and "jmp s = Inr s' \<Longrightarrow> wf_cpu s'" and "jeq s = Inr s' \<Longrightarrow> wf_cpu s'"
    and "jne s = Inr s' \<Longrightarrow> wf_cpu s'" and "ldi s = Inr s' \<Longrightarrow> wf_cpu s'"
    and "prn s = Inr s' \<Longrightarrow> wf_cpu s'" and "push s = Inr s' \<Longrightarrow> wf_cpu s'"
    and "pop s = Inr s' \<Longrightarrow> wf_cpu s'"
  using assms
  by (auto simp: call_def ret_def jmp_def jeq_def jne_def ldi_def prn_def push_def pop_def
      Let_def wf_cpu_fields dest!: bnd_InrD split: if_splits
      intro: reg_set_wf ram_set_wf) (metis reg_set_wf ram_set_wf wf_cpu_fields)+

lemma ALU_wf: "ALU op a b s = Inr s' \<Longrightarrow> wf_cpu s \<Longrightarrow> wf_cpu s'"
  by (auto simp: ALU_def math_op_simps raise_def Let_def reg_inplace_def wf_cpu_fields
      dest!: bnd_InrD split: if_splits) (metis reg_set_wf wf_cpu_fields(5))+

lemma fetch_wf: "fetch s = Inr (ireg, s1) \<Longrightarrow> wf_cpu s \<Longrightarrow> wf_cpu s1"
  by (auto simp: fetch_def Let_def wf_cpu_fields dest!: bnd_InrD)
    (metis ram_read_wf wf_cpu_fields(3))

lemma execute_wf:
  assumes "execute ireg s = Inr s'" and "wf_cpu s"
  shows "wf_cpu s'"
proof -
  consider "alu_class ireg = 1" | "alu_class ireg = 0"
    using alu_class_cases [of ireg] by blast
  then show ?thesis
  proof cases
    case 1
    with assms show ?thesis
      by (auto simp: execute_def dest: ALU_wf)
  next
    case 2
    with assms obtain name where n: "binary_op ireg = Some name"
      by (auto simp: execute_def raise_def split: option.splits)
    from binary_op_SomeD [OF n] 2 assms n show ?thesis
      by (auto simp: execute_def instructions_simps halt_def raise_def
          dest: handlers_wf)
  qed
qed

lemma cycle_wf:
  assumes "cycle s = Inr s'" and "wf_cpu s"
  shows "wf_cpu s'"
proof -
  from assms(1) obtain ireg s1 s2 where "fetch s = Inr (ireg, s1)"
    and "execute ireg s1 = Inr s2" and "s' = move_PC ireg s2"
    by (auto simp: cycle_def dest!: bnd_InrD)
  with assms(2) show ?thesis
    using execute_wf fetch_wf by (auto simp: move_PC_def wf_cpu_fields)
qed

lemma load_lines_wf:
  "load_lines strip int2 program ending a s = Inr s' \<Longrightarrow> wf_cpu s \<Longrightarrow> wf_cpu s'"
proof (induction program arbitrary: a s)
  case Nil
  then show ?case by (simp add: raise_def split: option.splits)
next
  case (Cons l program)
  then show ?case
    by (auto simp: Let_def raise_def dest!: bnd_InrD dest: ram_set_wf
        split: if_splits option.splits)
qed

lemma load_wf:
  "load strip int2 argv files s = Inr s' \<Longrightarrow> wf_cpu s \<Longrightarrow> wf_cpu s'"
  by (auto simp: load_def raise_def Let_def except_FileNotFoundError_def
      dest: load_lines_wf split: if_splits opened.splits sum.splits prod.splits)

end
